theory Spec2Isabelle
  imports Complex_Main
begin

section \<open>Hill climbing on binary knapsack solutions (\<open>hillclimbing.py\<close>)\<close>

text \<open>
  The embedding follows \<open>hillclimbing.py\<close>. Python's module-level random source is an
  explicit state of type \<open>'r\<close> that every drawing operation takes and returns; the
  operations of the \<open>random\<close> module are a record of functions over that state, so
  that every theorem holds for any generator behind them. Exceptions are values of a sum
  type (\<open>Inl\<close> is the raised error). Counts (\<open>n_vizinhos\<close>, \<open>max_iteracoes\<close>) are natural
  numbers, fitness values are any linearly ordered type, probabilities and the draws of
  \<open>random.random()\<close> are reals. The \<open>verbose\<close> printing is left out: it writes to the console
  and changes no variable.
\<close>

subsection \<open>The \<open>random\<close> module\<close>

datatype py_error = ValueError | IndexError

record 'r random_module =
  random_random :: "'r \<Rightarrow> real \<times> 'r"
  randbelow :: "'r \<Rightarrow> nat \<Rightarrow> nat \<times> 'r"

text \<open>
  \<open>random.randint(a, b)\<close> is \<open>randrange(a, b + 1)\<close>: with \<open>width = b + 1 - a\<close> it
  returns \<open>a + _randbelow(width)\<close> when \<open>width > 0\<close> and raises \<open>ValueError\<close> (empty
  range) otherwise.
\<close>

definition randint :: "'r random_module \<Rightarrow> 'r \<Rightarrow> int \<Rightarrow> int \<Rightarrow> py_error + (int \<times> 'r)" where
  "randint rm r a b =
     (let width = b + 1 - a in
      if 0 < width
      then (case randbelow rm r (nat width) of (k, r') \<Rightarrow> Inr (a + int k, r'))
      else Inl ValueError)"

text \<open>
  The library's guarantees: \<open>_randbelow(n)\<close> lies in \<open>[0, n)\<close> and \<open>random()\<close> in
  \<open>[0, 1)\<close>.
\<close>

definition randbelow_ok :: "'r random_module \<Rightarrow> bool" where
  "randbelow_ok rm \<longleftrightarrow> (\<forall>r n. 0 < n \<longrightarrow> fst (randbelow rm r n) < n)"

definition random_ok :: "'r random_module \<Rightarrow> bool" where
  "random_ok rm \<longleftrightarrow> (\<forall>r. 0 \<le> fst (random_random rm r) \<and> fst (random_random rm r) < 1)"

subsection \<open>\<open>gerar_vizinhos_knapsack\<close>\<close>

type_synonym solucao = "int list"

text \<open>A Python list index: negative indices count from the end, anything else out of
  range raises \<open>IndexError\<close>.\<close>

definition py_index :: "nat \<Rightarrow> int \<Rightarrow> py_error + nat" where
  "py_index n i =
     (if 0 \<le> i \<and> i < int n then Inr (nat i)
      else if i < 0 \<and> - int n \<le> i then Inr (nat (int n + i))
      else Inl IndexError)"

text \<open>\<open>vizinho = solucao.copy(); vizinho[pos] = 1 - vizinho[pos]\<close>\<close>

definition flip_bit :: "solucao \<Rightarrow> int \<Rightarrow> py_error + solucao" where
  "flip_bit solucao pos =
     (case py_index (length solucao) pos of
        Inl e \<Rightarrow> Inl e
      | Inr j \<Rightarrow> Inr (solucao[j := 1 - solucao ! j]))"

text \<open>
  The \<open>for i in range(n_vizinhos)\<close> loop, by recursion on the iterations left. The loop
  state is \<open>(vizinhos, sorted_pos)\<close> and the random state.
\<close>

fun gerar_laco ::
  "'r random_module \<Rightarrow> solucao \<Rightarrow> nat \<Rightarrow> solucao list \<times> int list \<times> 'r
     \<Rightarrow> py_error + (solucao list \<times> int list \<times> 'r)" where
  "gerar_laco rm solucao 0 st = Inr st"
| "gerar_laco rm solucao (Suc k) (vizinhos, sorted_pos, r) =
     (case randint rm r 0 (int (length solucao) - 1) of
        Inl e \<Rightarrow> Inl e
      | Inr (pos, r') \<Rightarrow>
          if pos \<in> set sorted_pos then gerar_laco rm solucao k (vizinhos, sorted_pos, r')
          else (case flip_bit solucao pos of
                  Inl e \<Rightarrow> Inl e
                | Inr vizinho \<Rightarrow>
                    gerar_laco rm solucao k (vizinhos @ [vizinho], sorted_pos @ [pos], r')))"

definition gerar_vizinhos_knapsack ::
  "'r random_module \<Rightarrow> 'r \<Rightarrow> solucao \<Rightarrow> nat \<Rightarrow> py_error + (solucao list \<times> 'r)" where
  "gerar_vizinhos_knapsack rm r solucao n_vizinhos =
     (case gerar_laco rm solucao n_vizinhos ([], [], r) of
        Inl e \<Rightarrow> Inl e
      | Inr (vizinhos, sorted_pos, r') \<Rightarrow> Inr (vizinhos, r'))"

subsection \<open>\<open>HillClimbing\<close>\<close>

text \<open>
  The object holds the two injected functions and the direction. The fitness function is
  a pure function of the solution; the neighbour generator may draw from the random
  source and may raise.
\<close>

record ('s, 'f, 'r, 'e) hill_climbing =
  funcao_fitness :: "'s \<Rightarrow> 'f"
  gerar_vizinhos :: "'r \<Rightarrow> 's \<Rightarrow> 'e + ('s list \<times> 'r)"
  maximizar :: bool

datatype ctl = Continue | Break

definition eh_melhor :: "bool \<Rightarrow> 'f::linorder \<Rightarrow> 'f \<Rightarrow> bool" where
  "eh_melhor maxi fitness_vizinho melhor_fitness_vizinho =
     (if maxi then fitness_vizinho > melhor_fitness_vizinho
      else fitness_vizinho < melhor_fitness_vizinho)"

text \<open>
  The body of \<open>for vizinho in vizinhos\<close> on the scan state
  \<open>(melhor_vizinho, melhor_fitness_vizinho)\<close> and the random state. \<open>random.random()\<close>
  is drawn only when the neighbour is not better and \<open>estocastico\<close> holds (\<open>and\<close>
  short-circuits).
\<close>

fun avaliar_vizinho ::
  "('s, 'f::linorder, 'r, 'e) hill_climbing \<Rightarrow> 'r random_module \<Rightarrow> bool \<Rightarrow> real \<Rightarrow> 's
     \<Rightarrow> 's option \<times> 'f \<times> 'r \<Rightarrow> ctl \<times> 's option \<times> 'f \<times> 'r" where
  "avaliar_vizinho hc rm estocastico probabilidade_pior vizinho
       (melhor_vizinho, melhor_fitness_vizinho, r) =
     (let fitness_vizinho = funcao_fitness hc vizinho in
      if eh_melhor (maximizar hc) fitness_vizinho melhor_fitness_vizinho
      then (Continue, Some vizinho, fitness_vizinho, r)
      else if estocastico
      then (case random_random rm r of (u, r') \<Rightarrow>
              if u < probabilidade_pior then (Break, Some vizinho, fitness_vizinho, r')
              else (Continue, melhor_vizinho, melhor_fitness_vizinho, r'))
      else (Continue, melhor_vizinho, melhor_fitness_vizinho, r))"

fun avaliar_vizinhos ::
  "('s, 'f::linorder, 'r, 'e) hill_climbing \<Rightarrow> 'r random_module \<Rightarrow> bool \<Rightarrow> real \<Rightarrow> 's list
     \<Rightarrow> 's option \<times> 'f \<times> 'r \<Rightarrow> ctl \<times> 's option \<times> 'f \<times> 'r" where
  "avaliar_vizinhos hc rm estocastico probabilidade_pior [] st = (Continue, st)"
| "avaliar_vizinhos hc rm estocastico probabilidade_pior (vizinho # vizinhos) st =
     (case avaliar_vizinho hc rm estocastico probabilidade_pior vizinho st of
        (Break, st') \<Rightarrow> (Break, st')
      | (Continue, st') \<Rightarrow> avaliar_vizinhos hc rm estocastico probabilidade_pior vizinhos st')"

record ('s, 'f, 'r) estado =
  solucao_atual :: 's
  fitness_atual :: 'f
  historico :: "'f list"
  iteracao :: nat
  melhorias :: nat
  aleatorio :: 'r

text \<open>
  One pass through the body of \<open>while iteracao < max_iteracoes\<close>. \<open>Break\<close> is the
  convergence branch (\<open>melhor_vizinho is None\<close>), \<open>Continue\<close> the accepted move followed
  by \<open>self.historico.append(fitness_atual)\<close>.
\<close>

definition iteracao_corpo ::
  "('s, 'f::linorder, 'r, 'e) hill_climbing \<Rightarrow> 'r random_module \<Rightarrow> bool \<Rightarrow> real
     \<Rightarrow> ('s, 'f, 'r) estado \<Rightarrow> 'e + (ctl \<times> ('s, 'f, 'r) estado)" where
  "iteracao_corpo hc rm estocastico probabilidade_pior st =
     (case gerar_vizinhos hc (aleatorio st) (solucao_atual st) of
        Inl e \<Rightarrow> Inl e
      | Inr (vizinhos, r1) \<Rightarrow>
          (case avaliar_vizinhos hc rm estocastico probabilidade_pior vizinhos
                  (None, fitness_atual st, r1) of
             (c, Some melhor_vizinho, melhor_fitness_vizinho, r2) \<Rightarrow>
               Inr (Continue,
                    st\<lparr>iteracao := iteracao st + 1,
                       solucao_atual := melhor_vizinho,
                       fitness_atual := melhor_fitness_vizinho,
                       melhorias := melhorias st + 1,
                       historico := historico st @ [melhor_fitness_vizinho],
                       aleatorio := r2\<rparr>)
           | (c, None, melhor_fitness_vizinho, r2) \<Rightarrow>
               Inr (Break, st\<lparr>iteracao := iteracao st + 1, aleatorio := r2\<rparr>)))"

function enquanto ::
  "('s, 'f::linorder, 'r, 'e) hill_climbing \<Rightarrow> 'r random_module \<Rightarrow> nat \<Rightarrow> bool \<Rightarrow> real
     \<Rightarrow> ('s, 'f, 'r) estado \<Rightarrow> 'e + ('s, 'f, 'r) estado" where
  "enquanto hc rm max_iteracoes estocastico probabilidade_pior st =
     (if iteracao st < max_iteracoes
      then (case iteracao_corpo hc rm estocastico probabilidade_pior st of
              Inl e \<Rightarrow> Inl e
            | Inr (Break, st') \<Rightarrow> Inr st'
            | Inr (Continue, st') \<Rightarrow>
                enquanto hc rm max_iteracoes estocastico probabilidade_pior st')
      else Inr st)"
  by pat_completeness auto
termination
  by (relation "measure (\<lambda>(hc, rm, max_iteracoes, estocastico, probabilidade_pior, st).
                   max_iteracoes - iteracao st)")
     (auto simp: iteracao_corpo_def split: sum.splits prod.splits option.splits)

declare enquanto.simps [simp del]

text \<open>
  \<open>executar\<close> returns \<open>(solucao_atual, fitness_atual, self.historico)\<close>; the model also
  returns the random state the run leaves behind. \<open>copy.deepcopy\<close> of a list of integers
  is the same value.
\<close>

definition estado_inicial ::
  "('s, 'f::linorder, 'r, 'e) hill_climbing \<Rightarrow> 's \<Rightarrow> 'r \<Rightarrow> ('s, 'f, 'r) estado" where
  "estado_inicial hc solucao_inicial r =
     \<lparr>solucao_atual = solucao_inicial,
      fitness_atual = funcao_fitness hc solucao_inicial,
      historico = [funcao_fitness hc solucao_inicial],
      iteracao = 0,
      melhorias = 0,
      aleatorio = r\<rparr>"

definition executar ::
  "('s, 'f::linorder, 'r, 'e) hill_climbing \<Rightarrow> 'r random_module \<Rightarrow> 'r \<Rightarrow> 's \<Rightarrow> nat \<Rightarrow> bool
     \<Rightarrow> real \<Rightarrow> 'e + (('s \<times> 'f \<times> 'f list) \<times> 'r)" where
  "executar hc rm r solucao_inicial max_iteracoes estocastico probabilidade_pior =
     (case enquanto hc rm max_iteracoes estocastico probabilidade_pior
             (estado_inicial hc solucao_inicial r) of
        Inl e \<Rightarrow> Inl e
      | Inr st \<Rightarrow> Inr ((solucao_atual st, fitness_atual st, historico st), aleatorio st))"

subsection \<open>The same run over an explicit store\<close>

text \<open>
  For the claims about object identity the solutions live in a store: a reference is an
  index into a list of objects, and allocating appends to the list, so the new reference is
  the length of the store before the allocation, and the allocated references are exactly
  those below the length. Python hands out no reference to an object that does not exist,
  so every reference the program holds is allocated. Both \<open>copy.deepcopy(x)\<close> and
  \<open>x.copy()\<close> of a list of integers allocate a new list object with the elements of \<open>x\<close>.
\<close>

type_synonym addr = nat

type_synonym 's heap = "'s list"

definition deepcopy :: "'s heap \<Rightarrow> addr \<Rightarrow> 's heap \<times> addr" where
  "deepcopy h a = (h @ [h ! a], length h)"

text \<open>\<open>vizinho[pos] = 1 - vizinho[pos]\<close> on the object that \<open>vizinho\<close> refers to.\<close>

definition flip_bit_h :: "solucao heap \<Rightarrow> addr \<Rightarrow> int \<Rightarrow> py_error + solucao heap" where
  "flip_bit_h h vizinho pos =
     (case py_index (length (h ! vizinho)) pos of
        Inl e \<Rightarrow> Inl e
      | Inr j \<Rightarrow> Inr (h[vizinho := (h ! vizinho)[j := 1 - h ! vizinho ! j]]))"

fun gerar_laco_h ::
  "'r random_module \<Rightarrow> addr \<Rightarrow> nat \<Rightarrow> nat \<Rightarrow> addr list \<times> int list \<times> 'r \<times> solucao heap
     \<Rightarrow> py_error + (addr list \<times> int list \<times> 'r \<times> solucao heap)" where
  "gerar_laco_h rm solucao n_itens 0 st = Inr st"
| "gerar_laco_h rm solucao n_itens (Suc k) (vizinhos, sorted_pos, r, h) =
     (case randint rm r 0 (int n_itens - 1) of
        Inl e \<Rightarrow> Inl e
      | Inr (pos, r') \<Rightarrow>
          if pos \<in> set sorted_pos
          then gerar_laco_h rm solucao n_itens k (vizinhos, sorted_pos, r', h)
          else (case deepcopy h solucao of (h1, vizinho) \<Rightarrow>
                 (case flip_bit_h h1 vizinho pos of
                    Inl e \<Rightarrow> Inl e
                  | Inr h2 \<Rightarrow>
                      gerar_laco_h rm solucao n_itens k
                        (vizinhos @ [vizinho], sorted_pos @ [pos], r', h2))))"

definition gerar_vizinhos_knapsack_h ::
  "'r random_module \<Rightarrow> 'r \<times> solucao heap \<Rightarrow> addr \<Rightarrow> nat
     \<Rightarrow> py_error + (addr list \<times> 'r \<times> solucao heap)" where
  "gerar_vizinhos_knapsack_h rm rh solucao n_vizinhos =
     (case rh of (r, h) \<Rightarrow>
        (case gerar_laco_h rm solucao (length (h ! solucao)) n_vizinhos ([], [], r, h) of
           Inl e \<Rightarrow> Inl e
         | Inr (vizinhos, sorted_pos, r', h') \<Rightarrow> Inr (vizinhos, r', h')))"

text \<open>
  The engine: the fitness function reads the object a reference points to, the generator
  works on the store and returns references.
\<close>

record ('s, 'f, 'r, 'e) hill_climbing_h =
  funcao_fitness_h :: "'s \<Rightarrow> 'f"
  gerar_vizinhos_h :: "'r \<times> 's heap \<Rightarrow> addr \<Rightarrow> 'e + (addr list \<times> 'r \<times> 's heap)"
  maximizar_h :: bool

fun avaliar_vizinho_h ::
  "('s, 'f::linorder, 'r, 'e) hill_climbing_h \<Rightarrow> 'r random_module \<Rightarrow> bool \<Rightarrow> real \<Rightarrow> 's heap
     \<Rightarrow> addr \<Rightarrow> addr option \<times> 'f \<times> 'r \<Rightarrow> ctl \<times> addr option \<times> 'f \<times> 'r" where
  "avaliar_vizinho_h hh rm estocastico probabilidade_pior h vizinho
       (melhor_vizinho, melhor_fitness_vizinho, r) =
     (let fitness_vizinho = funcao_fitness_h hh (h ! vizinho) in
      if eh_melhor (maximizar_h hh) fitness_vizinho melhor_fitness_vizinho
      then (Continue, Some vizinho, fitness_vizinho, r)
      else if estocastico
      then (case random_random rm r of (u, r') \<Rightarrow>
              if u < probabilidade_pior then (Break, Some vizinho, fitness_vizinho, r')
              else (Continue, melhor_vizinho, melhor_fitness_vizinho, r'))
      else (Continue, melhor_vizinho, melhor_fitness_vizinho, r))"

fun avaliar_vizinhos_h ::
  "('s, 'f::linorder, 'r, 'e) hill_climbing_h \<Rightarrow> 'r random_module \<Rightarrow> bool \<Rightarrow> real \<Rightarrow> 's heap
     \<Rightarrow> addr list \<Rightarrow> addr option \<times> 'f \<times> 'r \<Rightarrow> ctl \<times> addr option \<times> 'f \<times> 'r" where
  "avaliar_vizinhos_h hh rm estocastico probabilidade_pior h [] st = (Continue, st)"
| "avaliar_vizinhos_h hh rm estocastico probabilidade_pior h (vizinho # vizinhos) st =
     (case avaliar_vizinho_h hh rm estocastico probabilidade_pior h vizinho st of
        (Break, st') \<Rightarrow> (Break, st')
      | (Continue, st') \<Rightarrow>
          avaliar_vizinhos_h hh rm estocastico probabilidade_pior h vizinhos st')"

text \<open>
  The loop state with the store. \<open>candidatos\<close> is not a variable of the program: it
  records every reference the generator has returned so far, to state what the returned
  solution does not alias.
\<close>

record ('s, 'f, 'r) estado_h =
  solucao_atual_h :: addr
  fitness_atual_h :: 'f
  historico_h :: "'f list"
  iteracao_h :: nat
  melhorias_h :: nat
  aleatorio_h :: 'r
  memoria :: "'s heap"
  candidatos :: "addr list"

definition iteracao_corpo_h ::
  "('s, 'f::linorder, 'r, 'e) hill_climbing_h \<Rightarrow> 'r random_module \<Rightarrow> bool \<Rightarrow> real
     \<Rightarrow> ('s, 'f, 'r) estado_h \<Rightarrow> 'e + (ctl \<times> ('s, 'f, 'r) estado_h)" where
  "iteracao_corpo_h hh rm estocastico probabilidade_pior st =
     (case gerar_vizinhos_h hh (aleatorio_h st, memoria st) (solucao_atual_h st) of
        Inl e \<Rightarrow> Inl e
      | Inr (vizinhos, r1, h1) \<Rightarrow>
          (case avaliar_vizinhos_h hh rm estocastico probabilidade_pior h1 vizinhos
                  (None, fitness_atual_h st, r1) of
             (c, Some melhor_vizinho, melhor_fitness_vizinho, r2) \<Rightarrow>
               (case deepcopy h1 melhor_vizinho of (h2, nova) \<Rightarrow>
                  Inr (Continue,
                       st\<lparr>iteracao_h := iteracao_h st + 1,
                          solucao_atual_h := nova,
                          fitness_atual_h := melhor_fitness_vizinho,
                          melhorias_h := melhorias_h st + 1,
                          historico_h := historico_h st @ [melhor_fitness_vizinho],
                          aleatorio_h := r2,
                          memoria := h2,
                          candidatos := candidatos st @ vizinhos\<rparr>))
           | (c, None, melhor_fitness_vizinho, r2) \<Rightarrow>
               Inr (Break,
                    st\<lparr>iteracao_h := iteracao_h st + 1,
                       aleatorio_h := r2,
                       memoria := h1,
                       candidatos := candidatos st @ vizinhos\<rparr>)))"

function enquanto_h ::
  "('s, 'f::linorder, 'r, 'e) hill_climbing_h \<Rightarrow> 'r random_module \<Rightarrow> nat \<Rightarrow> bool \<Rightarrow> real
     \<Rightarrow> ('s, 'f, 'r) estado_h \<Rightarrow> 'e + ('s, 'f, 'r) estado_h" where
  "enquanto_h hh rm max_iteracoes estocastico probabilidade_pior st =
     (if iteracao_h st < max_iteracoes
      then (case iteracao_corpo_h hh rm estocastico probabilidade_pior st of
              Inl e \<Rightarrow> Inl e
            | Inr (Break, st') \<Rightarrow> Inr st'
            | Inr (Continue, st') \<Rightarrow>
                enquanto_h hh rm max_iteracoes estocastico probabilidade_pior st')
      else Inr st)"
  by pat_completeness auto
termination
  by (relation "measure (\<lambda>(hh, rm, max_iteracoes, estocastico, probabilidade_pior, st).
                   max_iteracoes - iteracao_h st)")
     (auto simp: iteracao_corpo_h_def deepcopy_def
           split: sum.splits prod.splits option.splits)

declare enquanto_h.simps [simp del]

definition estado_inicial_h ::
  "('s, 'f::linorder, 'r, 'e) hill_climbing_h \<Rightarrow> addr \<Rightarrow> 'r \<times> 's heap
     \<Rightarrow> ('s, 'f, 'r) estado_h" where
  "estado_inicial_h hh solucao_inicial rh =
     (case rh of (r, h) \<Rightarrow>
        (case deepcopy h solucao_inicial of (h1, copia) \<Rightarrow>
           \<lparr>solucao_atual_h = copia,
            fitness_atual_h = funcao_fitness_h hh (h1 ! copia),
            historico_h = [funcao_fitness_h hh (h1 ! copia)],
            iteracao_h = 0,
            melhorias_h = 0,
            aleatorio_h = r,
            memoria = h1,
            candidatos = []\<rparr>))"

definition executar_h ::
  "('s, 'f::linorder, 'r, 'e) hill_climbing_h \<Rightarrow> 'r random_module \<Rightarrow> 'r \<times> 's heap \<Rightarrow> addr
     \<Rightarrow> nat \<Rightarrow> bool \<Rightarrow> real
     \<Rightarrow> 'e + ((addr \<times> 'f \<times> 'f list) \<times> 'r \<times> 's heap \<times> addr list)" where
  "executar_h hh rm rh solucao_inicial max_iteracoes estocastico probabilidade_pior =
     (case enquanto_h hh rm max_iteracoes estocastico probabilidade_pior
             (estado_inicial_h hh solucao_inicial rh) of
        Inl e \<Rightarrow> Inl e
      | Inr st \<Rightarrow>
          Inr ((solucao_atual_h st, fitness_atual_h st, historico_h st),
               aleatorio_h st, memoria st, candidatos st))"

text \<open>
  What the engine relies on in a generator: called on an allocated reference, it leaves
  every object that existed before the call as it was, and the references it returns are
  allocated and are not the one it was handed.
\<close>

definition gerador_ok :: "('s, 'f, 'r, 'e) hill_climbing_h \<Rightarrow> bool" where
  "gerador_ok hh \<longleftrightarrow>
     (\<forall>r h a cs r' h'.
        a < length h \<longrightarrow> gerar_vizinhos_h hh (r, h) a = Inr (cs, r', h')
        \<longrightarrow> length h \<le> length h' \<and> take (length h) h' = h
            \<and> (\<forall>c\<in>set cs. c < length h' \<and> c \<noteq> a))"

text \<open>
  The link to the run on values: a store generator implements a value generator when, on
  an allocated reference, it raises the same exception or returns references to the
  neighbours the value generator returns, and the two engines share fitness function and
  direction. \<open>valores\<close> reads the loop state on values off a loop state over the store.
\<close>

definition implementa ::
  "('s, 'f, 'r, 'e) hill_climbing_h \<Rightarrow> ('s, 'f, 'r, 'e) hill_climbing \<Rightarrow> bool" where
  "implementa hh hc \<longleftrightarrow>
     funcao_fitness_h hh = funcao_fitness hc \<and> maximizar_h hh = maximizar hc
     \<and> (\<forall>r h a. a < length h \<longrightarrow>
          gerar_vizinhos hc r (h ! a)
            = map_sum id (\<lambda>(cs, r', h'). (map ((!) h') cs, r'))
                (gerar_vizinhos_h hh (r, h) a))"

definition valores :: "('s, 'f, 'r) estado_h \<Rightarrow> ('s, 'f, 'r) estado" where
  "valores st =
     \<lparr>solucao_atual = memoria st ! solucao_atual_h st,
      fitness_atual = fitness_atual_h st,
      historico = historico_h st,
      iteracao = iteracao_h st,
      melhorias = melhorias_h st,
      aleatorio = aleatorio_h st\<rparr>"

text \<open>The invariant of the loop over the store \<open>h0\<close> the caller passed in.\<close>

definition separado :: "'s heap \<Rightarrow> ('s, 'f, 'r) estado_h \<Rightarrow> bool" where
  "separado h0 st \<longleftrightarrow>
     length h0 \<le> solucao_atual_h st \<and> solucao_atual_h st < length (memoria st)
     \<and> take (length h0) (memoria st) = h0
     \<and> (\<forall>c\<in>set (candidatos st). c < length (memoria st))
     \<and> solucao_atual_h st \<notin> set (candidatos st)"

subsection \<open>States of a run\<close>

text \<open>
  The states at the head of the \<open>while\<close> loop: the state after initialisation, and every
  state that an iteration which accepted a move leaves behind.
\<close>

inductive alcancavel ::
  "('s, 'f::linorder, 'r, 'e) hill_climbing \<Rightarrow> 'r random_module \<Rightarrow> nat \<Rightarrow> bool \<Rightarrow> real
     \<Rightarrow> 's \<Rightarrow> 'r \<Rightarrow> ('s, 'f, 'r) estado \<Rightarrow> bool"
  for hc rm max_iteracoes estocastico probabilidade_pior solucao_inicial r where
  inicio: "alcancavel hc rm max_iteracoes estocastico probabilidade_pior solucao_inicial r
             (estado_inicial hc solucao_inicial r)"
| passo: "alcancavel hc rm max_iteracoes estocastico probabilidade_pior solucao_inicial r st
          \<Longrightarrow> iteracao st < max_iteracoes
          \<Longrightarrow> iteracao_corpo hc rm estocastico probabilidade_pior st = Inr (Continue, st')
          \<Longrightarrow> alcancavel hc rm max_iteracoes estocastico probabilidade_pior solucao_inicial r st'"

text \<open>Invariants used in the proofs.\<close>

definition flips :: "solucao \<Rightarrow> solucao list \<Rightarrow> int list \<Rightarrow> bool" where
  "flips S vs ps \<longleftrightarrow>
     list_all2 (\<lambda>v p. 0 \<le> p \<and> p < int (length S) \<and> v = S[nat p := 1 - S ! nat p]) vs ps
     \<and> distinct ps"

definition consistente ::
  "('s, 'f::linorder, 'r, 'e) hill_climbing \<Rightarrow> ('s, 'f, 'r) estado \<Rightarrow> bool" where
  "consistente hc st \<longleftrightarrow>
     historico st \<noteq> [] \<and> fitness_atual st = last (historico st)
     \<and> fitness_atual st = funcao_fitness hc (solucao_atual st)"

definition monotono ::
  "('s, 'f::linorder, 'r, 'e) hill_climbing \<Rightarrow> ('s, 'f, 'r) estado \<Rightarrow> bool" where
  "monotono hc st \<longleftrightarrow>
     (if maximizar hc
      then sorted_wrt (\<lambda>a b. a \<le> b) (historico st)
           \<and> (\<forall>x\<in>set (historico st). x \<le> fitness_atual st)
      else sorted_wrt (\<lambda>a b. b \<le> a) (historico st)
           \<and> (\<forall>x\<in>set (historico st). fitness_atual st \<le> x))"

text \<open>
  A generator that always yields at least one neighbour on a set \<open>P\<close> of solutions, and
  whose neighbours stay in \<open>P\<close>.
\<close>

definition sempre_vizinhos ::
  "('s \<Rightarrow> bool) \<Rightarrow> ('s, 'f, 'r, 'e) hill_climbing \<Rightarrow> bool" where
  "sempre_vizinhos P hc \<longleftrightarrow>
     (\<forall>r s. P s \<longrightarrow> (\<exists>vs r'. gerar_vizinhos hc r s = Inr (vs, r') \<and> vs \<noteq> []
                              \<and> (\<forall>v\<in>set vs. P v)))"

text \<open>Two loop states that agree on everything but the random state.\<close>

definition mesmo :: "('s, 'f, 'r) estado \<Rightarrow> ('s, 'f, 'r) estado \<Rightarrow> bool" where
  "mesmo a b \<longleftrightarrow>
     solucao_atual a = solucao_atual b \<and> fitness_atual a = fitness_atual b
     \<and> historico a = historico b \<and> iteracao a = iteracao b \<and> melhorias a = melhorias b"

subsection \<open>Worked examples\<close>

text \<open>
  A random source for the examples: its state is a counter, \<open>_randbelow(n)\<close> is the
  counter modulo \<open>n\<close>, \<open>random()\<close> is the last decimal digit of the counter over ten, and
  every draw advances the counter by one.
\<close>

definition contador :: "nat random_module" where
  "contador = \<lparr>random_random = (\<lambda>r. (real (r mod 10) / 10, Suc r)),
               randbelow = (\<lambda>r n. (r mod n, Suc r))\<rparr>"

text \<open>The driver's configuration with the number of ones as fitness: maximise, neighbours
  from \<open>gerar_vizinhos_knapsack\<close> with its default \<open>n_vizinhos = 10\<close>.\<close>

definition soma :: "(solucao, int, nat, py_error) hill_climbing" where
  "soma = \<lparr>funcao_fitness = sum_list,
           gerar_vizinhos = (\<lambda>r s. gerar_vizinhos_knapsack contador r s 10),
           maximizar = True\<rparr>"

text \<open>Generators that return a fixed list of neighbours.\<close>

definition dois_vizinhos :: "(solucao, int, nat, py_error) hill_climbing" where
  "dois_vizinhos = \<lparr>funcao_fitness = sum_list,
                    gerar_vizinhos = (\<lambda>r s. Inr ([[1, 0], [1, 1]], r)),
                    maximizar = True\<rparr>"

definition tres_vizinhos :: "(solucao, int, nat, py_error) hill_climbing" where
  "tres_vizinhos = \<lparr>funcao_fitness = sum_list,
                    gerar_vizinhos = (\<lambda>r s. Inr ([[1, 0], [0, 0], [1, 1]], r)),
                    maximizar = True\<rparr>"

text \<open>A generator that draws nothing: every single-bit flip, in position order.\<close>

definition vizinhanca_completa :: "(solucao, int, nat, py_error) hill_climbing" where
  "vizinhanca_completa =
     \<lparr>funcao_fitness = sum_list,
      gerar_vizinhos = (\<lambda>r s. Inr (map (\<lambda>i. s[i := 1 - s ! i]) [0..<length s], r)),
      maximizar = True\<rparr>"

text \<open>A generator that flips only the zero bits, in position order: it returns no
  neighbour for a solution without zeros.\<close>

definition so_zeros :: "(solucao, int, nat, py_error) hill_climbing" where
  "so_zeros =
     \<lparr>funcao_fitness = sum_list,
      gerar_vizinhos =
        (\<lambda>r s. Inr (map (\<lambda>i. s[i := 1]) (filter (\<lambda>i. s ! i = 0) [0..<length s]), r)),
      maximizar = True\<rparr>"

text \<open>The driver's configuration over the store.\<close>

definition soma_h :: "(solucao, int, nat, py_error) hill_climbing_h" where
  "soma_h = \<lparr>funcao_fitness_h = sum_list,
             gerar_vizinhos_h = (\<lambda>rh a. gerar_vizinhos_knapsack_h contador rh a 10),
             maximizar_h = True\<rparr>"

section \<open>The neighbour generator\<close>

lemma randbelow_ok_contador: "randbelow_ok contador"
  by (simp add: randbelow_ok_def contador_def)

lemma random_ok_contador: "random_ok contador"
  by (simp add: random_ok_def contador_def)

lemma randint_in_range:
  assumes "randbelow_ok rm" "0 < n"
  shows "\<exists>pos r'. randint rm r 0 (int n - 1) = Inr (pos, r') \<and> 0 \<le> pos \<and> pos < int n"
proof -
  obtain k r' where kr: "randbelow rm r n = (k, r')" by (cases "randbelow rm r n")
  from assms have "fst (randbelow rm r n) < n" by (simp add: randbelow_ok_def)
  with kr have "k < n" by simp
  with kr assms(2) show ?thesis by (simp add: randint_def)
qed

lemma flip_bit_in_range:
  "0 \<le> pos \<Longrightarrow> pos < int (length S) \<Longrightarrow> flip_bit S pos = Inr (S[nat pos := 1 - S ! nat pos])"
  by (simp add: flip_bit_def py_index_def)

text \<open>
  The loop keeps \<open>vizinhos\<close> and \<open>sorted_pos\<close> in step: the \<open>k\<close>-th neighbour is the
  solution flipped at the \<open>k\<close>-th recorded position, and no position is recorded twice.
\<close>

lemma gerar_laco_flips:
  assumes "randbelow_ok rm" "S \<noteq> []"
  shows "flips S vs ps \<Longrightarrow>
         \<exists>vs' ps' r'. gerar_laco rm S k (vs, ps, r) = Inr (vs', ps', r')
            \<and> flips S vs' ps' \<and> length vs' \<le> length vs + k \<and> length vs \<le> length vs'"
proof (induction k arbitrary: vs ps r)
  case 0
  then show ?case by simp
next
  case (Suc k)
  from assms obtain pos r1 where
    ri: "randint rm r 0 (int (length S) - 1) = Inr (pos, r1)" and
    pos: "0 \<le> pos" "pos < int (length S)"
    using randint_in_range [of rm "length S" r] by auto
  show ?case
  proof (cases "pos \<in> set ps")
    case True
    from Suc.IH [OF Suc.prems, of r1] obtain vs' ps' r' where
      "gerar_laco rm S k (vs, ps, r1) = Inr (vs', ps', r')" "flips S vs' ps'"
      "length vs' \<le> length vs + k" "length vs \<le> length vs'" by blast
    with ri True show ?thesis by auto
  next
    case False
    let ?v = "S[nat pos := 1 - S ! nat pos]"
    from Suc.prems pos False have "flips S (vs @ [?v]) (ps @ [pos])"
      by (auto simp: flips_def intro: list_all2_appendI)
    from Suc.IH [OF this, of r1] obtain vs' ps' r' where
      "gerar_laco rm S k (vs @ [?v], ps @ [pos], r1) = Inr (vs', ps', r')" "flips S vs' ps'"
      "length vs' \<le> length (vs @ [?v]) + k" "length (vs @ [?v]) \<le> length vs'" by blast
    with ri False pos show ?thesis by (auto simp: flip_bit_in_range)
  qed
qed

lemma flip_neq: "1 - x \<noteq> (x::int)"
  by presburger

lemma flips_positions:
  assumes "flips S vs ps"
  shows "\<exists>qs. length qs = length vs \<and> distinct qs \<and>
           (\<forall>k<length vs. qs ! k < length S \<and> length (vs ! k) = length S
               \<and> vs ! k ! (qs ! k) = 1 - S ! (qs ! k)
               \<and> (\<forall>i<length S. (vs ! k ! i \<noteq> S ! i) = (i = qs ! k)))"
proof (intro exI conjI allI impI)
  let ?qs = "map nat ps"
  from assms have
    l2: "list_all2 (\<lambda>v p. 0 \<le> p \<and> p < int (length S) \<and> v = S[nat p := 1 - S ! nat p]) vs ps"
    and d: "distinct ps" by (simp_all add: flips_def)
  from l2 have len: "length vs = length ps" by (rule list_all2_lengthD)
  show "length ?qs = length vs" using len by simp
  from l2 have nn: "\<forall>p\<in>set ps. 0 \<le> p" by (auto simp: list_all2_conv_all_nth in_set_conv_nth)
  have "inj_on nat (set ps)" using nn by (intro inj_onI) (simp add: eq_nat_nat_iff)
  then show "distinct ?qs" using d by (simp add: distinct_map)
  fix k assume k: "k < length vs"
  with l2 have pk: "0 \<le> ps ! k" "ps ! k < int (length S)"
    "vs ! k = S[nat (ps ! k) := 1 - S ! nat (ps ! k)]"
    by (auto simp: list_all2_conv_all_nth)
  from k len have q: "?qs ! k = nat (ps ! k)" by simp
  show "?qs ! k < length S" using pk q by simp
  show "length (vs ! k) = length S" using pk by simp
  show "vs ! k ! (?qs ! k) = 1 - S ! (?qs ! k)" using pk q by simp
  fix i assume "i < length S"
  then show "(vs ! k ! i \<noteq> S ! i) = (i = ?qs ! k)"
    using pk q by (simp add: nth_list_update flip_neq)
qed

lemma flips_length: "flips S vs ps \<Longrightarrow> v \<in> set vs \<Longrightarrow> length v = length S"
  by (auto simp: flips_def list_all2_conv_all_nth in_set_conv_nth)

text \<open>
  Claim C6. For a non-empty solution \<open>S\<close> and any requested count,
  \<open>gerar_vizinhos_knapsack\<close> returns at most \<open>n_vizinhos\<close> neighbours; there are positions
  \<open>qs\<close>, one per neighbour and pairwise distinct, such that the \<open>k\<close>-th neighbour has the
  length of \<open>S\<close> and differs from \<open>S\<close> exactly at position \<open>qs ! k\<close>, where it holds the
  flipped value. The random source is any one whose \<open>_randbelow(n)\<close> lies below \<open>n\<close>.
\<close>

theorem gerar_vizinhos_knapsack_single_flips:
  assumes "randbelow_ok rm" "S \<noteq> []"
  shows "\<exists>vizinhos r' qs. gerar_vizinhos_knapsack rm r S n_vizinhos = Inr (vizinhos, r')
           \<and> length vizinhos \<le> n_vizinhos
           \<and> length qs = length vizinhos \<and> distinct qs
           \<and> (\<forall>k<length vizinhos. qs ! k < length S \<and> length (vizinhos ! k) = length S
                 \<and> vizinhos ! k ! (qs ! k) = 1 - S ! (qs ! k)
                 \<and> (\<forall>i<length S. (vizinhos ! k ! i \<noteq> S ! i) = (i = qs ! k)))"
proof -
  have "flips S [] []" by (simp add: flips_def)
  from gerar_laco_flips [OF assms this, of n_vizinhos r] obtain vs ps r' where
    g: "gerar_laco rm S n_vizinhos ([], [], r) = Inr (vs, ps, r')" and f: "flips S vs ps"
    and l: "length vs \<le> n_vizinhos" by auto
  from flips_positions [OF f] obtain qs where "length qs = length vs \<and> distinct qs \<and>
           (\<forall>k<length vs. qs ! k < length S \<and> length (vs ! k) = length S
               \<and> vs ! k ! (qs ! k) = 1 - S ! (qs ! k)
               \<and> (\<forall>i<length S. (vs ! k ! i \<noteq> S ! i) = (i = qs ! k)))" by blast
  with g l show ?thesis by (auto simp: gerar_vizinhos_knapsack_def)
qed

text \<open>
  At the solution \<open>[0, 1, 0]\<close> with five requested neighbours and the counter source
  started at 0, the draws are 0, 1, 2, 0, 1: three neighbours, the last two draws skipped.
\<close>

theorem gerar_vizinhos_knapsack_single_flips_witness:
  "randbelow_ok contador \<and> [0, 1, 0] \<noteq> ([] :: solucao)
   \<and> gerar_vizinhos_knapsack contador 0 [0, 1, 0] 5 = Inr ([[1, 1, 0], [0, 0, 0], [0, 1, 1]], 5)
   \<and> (\<exists>vizinhos r' qs. gerar_vizinhos_knapsack contador 0 [0, 1, 0] 5 = Inr (vizinhos, r')
           \<and> length vizinhos \<le> 5
           \<and> length qs = length vizinhos \<and> distinct qs
           \<and> (\<forall>k<length vizinhos. qs ! k < length [0, 1, 0 :: int]
                 \<and> length (vizinhos ! k) = length [0, 1, 0 :: int]
                 \<and> vizinhos ! k ! (qs ! k) = 1 - [0, 1, 0] ! (qs ! k)
                 \<and> (\<forall>i<length [0, 1, 0 :: int].
                       (vizinhos ! k ! i \<noteq> [0, 1, 0] ! i) = (i = qs ! k))))"
proof -
  have ne: "[0, 1, 0] \<noteq> ([] :: solucao)" by simp
  have ev: "gerar_vizinhos_knapsack contador 0 [0, 1, 0] 5
              = Inr ([[1, 1, 0], [0, 0, 0], [0, 1, 1]], 5)"
    by code_simp
  from gerar_vizinhos_knapsack_single_flips [OF randbelow_ok_contador ne, of 0 5]
    randbelow_ok_contador ne ev
  show ?thesis by blast
qed

text \<open>
  Claim C10, as amended. With a random source whose \<open>_randbelow(n)\<close> lies below \<open>n\<close>,
  \<open>gerar_vizinhos_knapsack\<close> returns a list for every non-empty solution. For the empty
  solution it raises \<open>ValueError\<close> (the draw over the empty range \<open>randint(0, -1)\<close>) as
  soon as one neighbour is requested; with \<open>n_vizinhos = 0\<close> the loop body never runs,
  nothing is drawn, and the call returns the empty list.
\<close>

theorem gerar_vizinhos_knapsack_returns_or_raises:
  "(randbelow_ok rm \<and> S \<noteq> []
      \<longrightarrow> (\<exists>vizinhos r'. gerar_vizinhos_knapsack rm r S n_vizinhos = Inr (vizinhos, r')))
   \<and> gerar_vizinhos_knapsack rm r [] (Suc n) = Inl ValueError
   \<and> gerar_vizinhos_knapsack rm r [] 0 = Inr ([], r)"
proof (intro conjI impI)
  assume a: "randbelow_ok rm \<and> S \<noteq> []"
  have "flips S [] []" by (simp add: flips_def)
  from gerar_laco_flips [OF conjunct1 [OF a] conjunct2 [OF a] this, of n_vizinhos r]
  show "\<exists>vizinhos r'. gerar_vizinhos_knapsack rm r S n_vizinhos = Inr (vizinhos, r')"
    by (auto simp: gerar_vizinhos_knapsack_def)
next
  show "gerar_vizinhos_knapsack rm r [] (Suc n) = Inl ValueError"
    by (simp add: gerar_vizinhos_knapsack_def randint_def)
next
  show "gerar_vizinhos_knapsack rm r [] 0 = Inr ([], r)"
    by (simp add: gerar_vizinhos_knapsack_def)
qed

theorem gerar_vizinhos_knapsack_returns_or_raises_witness:
  "randbelow_ok contador \<and> [1, 0] \<noteq> ([] :: solucao)
   \<and> (\<exists>vizinhos r'. gerar_vizinhos_knapsack contador 0 [1, 0] 10 = Inr (vizinhos, r'))
   \<and> gerar_vizinhos_knapsack contador 0 [] (Suc 9) = Inl ValueError
   \<and> gerar_vizinhos_knapsack contador 0 [] 0 = Inr ([], 0)"
  using gerar_vizinhos_knapsack_returns_or_raises [of contador "[1, 0]" 0 10 9]
    randbelow_ok_contador
  by simp

text \<open>
  Claim C10 as stated, that the call raises for the empty solution, fails when no
  neighbour is requested: the call returns.
\<close>

theorem gerar_vizinhos_knapsack_empty_returns:
  "gerar_vizinhos_knapsack contador 0 [] 0 = Inr ([], 0)"
  by (simp add: gerar_vizinhos_knapsack_def)


section \<open>The engine\<close>

subsection \<open>The scan and the loop\<close>

lemma iteracao_corpo_iteracao:
  "iteracao_corpo hc rm est p st = Inr (c, st') \<Longrightarrow> iteracao st' = iteracao st + 1"
  by (auto simp: iteracao_corpo_def split: sum.splits prod.splits option.splits)

text \<open>Whenever the scan holds a neighbour, the fitness it holds is that neighbour's.\<close>

lemma avaliar_vizinhos_fitness:
  "avaliar_vizinhos hc rm est p vs (mv0, mf0, r0) = (c, mv, mf, r')
   \<Longrightarrow> (\<forall>v. mv0 = Some v \<longrightarrow> mf0 = funcao_fitness hc v)
   \<Longrightarrow> (case mv of None \<Rightarrow> mv0 = None \<and> mf = mf0 \<and> c = Continue
         | Some v \<Rightarrow> mf = funcao_fitness hc v \<and> (v \<in> set vs \<or> mv0 = Some v))"
proof (induction vs arbitrary: mv0 mf0 r0)
  case Nil
  then show ?case by (auto split: option.splits)
next
  case (Cons a vs)
  then show ?case
    by (fastforce simp: Let_def split: if_splits prod.splits ctl.splits option.splits)
qed

lemma avaliar_vizinhos_append:
  "avaliar_vizinhos hc rm est p pre st0 = (Continue, st1)
   \<Longrightarrow> avaliar_vizinhos hc rm est p (pre @ rest) st0 = avaliar_vizinhos hc rm est p rest st1"
proof (induction pre arbitrary: st0)
  case Nil
  then show ?case by simp
next
  case (Cons v pre)
  obtain c s where a: "avaliar_vizinho hc rm est p v st0 = (c, s)"
    by (cases "avaliar_vizinho hc rm est p v st0")
  show ?case
  proof (cases c)
    case Break
    with a Cons.prems show ?thesis by simp
  next
    case Continue
    with a Cons.prems have "avaliar_vizinhos hc rm est p pre s = (Continue, st1)" by simp
    from Cons.IH [OF this] a Continue show ?thesis by simp
  qed
qed

lemma iteracao_corpo_returns:
  assumes "gerar_vizinhos hc (aleatorio st) (solucao_atual st) = Inr (vs, r1)"
  shows "\<exists>c st1. iteracao_corpo hc rm est p st = Inr (c, st1)"
proof -
  obtain c mv mf r2 where
    "avaliar_vizinhos hc rm est p vs (None, fitness_atual st, r1) = (c, mv, mf, r2)"
    by (metis prod_cases4)
  with assms show ?thesis by (cases mv) (simp_all add: iteracao_corpo_def)
qed

lemma iteracao_corpo_raises:
  "iteracao_corpo hc rm est p st = Inl e
   \<Longrightarrow> gerar_vizinhos hc (aleatorio st) (solucao_atual st) = Inl e"
proof (cases "gerar_vizinhos hc (aleatorio st) (solucao_atual st)")
  case (Inl e')
  assume "iteracao_corpo hc rm est p st = Inl e"
  with Inl show ?thesis by (simp add: iteracao_corpo_def)
next
  case (Inr x)
  assume r: "iteracao_corpo hc rm est p st = Inl e"
  obtain vs r1 where "x = (vs, r1)" by (cases x)
  with Inr iteracao_corpo_returns [of hc st vs r1 rm est p] r show ?thesis by auto
qed

text \<open>An invariant of the loop body holds of the state that \<open>while\<close> returns.\<close>

lemma enquanto_invariante:
  assumes "enquanto hc rm mx est p st = Inr st'" and "Inv st"
    and step: "\<And>s c s'. Inv s \<Longrightarrow> iteracao s < mx
                 \<Longrightarrow> iteracao_corpo hc rm est p s = Inr (c, s') \<Longrightarrow> Inv s'"
  shows "Inv st'"
  using assms
proof (induction hc rm mx est p st rule: enquanto.induct)
  case (1 hc rm mx est p st)
  show ?case
  proof (cases "iteracao st < mx")
    case False
    with "1.prems" show ?thesis by (simp add: enquanto.simps)
  next
    case True
    with "1.prems"(1) obtain c st1 where
      b: "iteracao_corpo hc rm est p st = Inr (c, st1)"
      by (auto simp: enquanto.simps [of hc rm mx est p st] split: sum.splits)
    from "1.prems"(3) [OF "1.prems"(2) True b] have c1: "Inv st1" .
    show ?thesis
    proof (cases c)
      case Break
      with True b "1.prems"(1) c1 show ?thesis
        by (simp add: enquanto.simps [of hc rm mx est p st])
    next
      case Continue
      with True b "1.prems"(1) have "enquanto hc rm mx est p st1 = Inr st'"
        by (simp add: enquanto.simps [of hc rm mx est p st])
      from "1.IH" [OF True b refl Continue this c1 "1.prems"(3)] show ?thesis by simp
    qed
  qed
qed

lemma enquanto_raises:
  "enquanto hc rm mx est p st = Inl e \<Longrightarrow> \<exists>r s. gerar_vizinhos hc r s = Inl e"
proof (induction hc rm mx est p st rule: enquanto.induct)
  case (1 hc rm mx est p st)
  from "1.prems" have lt: "iteracao st < mx"
    by (cases "iteracao st < mx") (simp_all add: enquanto.simps [of hc rm mx est p st])
  show ?case
  proof (cases "iteracao_corpo hc rm est p st")
    case (Inl e')
    with lt "1.prems" have "e' = e" by (simp add: enquanto.simps [of hc rm mx est p st])
    with iteracao_corpo_raises [OF Inl] show ?thesis by blast
  next
    case (Inr x)
    obtain c st1 where x: "x = (c, st1)" by (cases x)
    show ?thesis
    proof (cases c)
      case Break
      with Inr x lt "1.prems" show ?thesis by (simp add: enquanto.simps [of hc rm mx est p st])
    next
      case Continue
      with Inr x lt "1.prems" have "enquanto hc rm mx est p st1 = Inl e"
        by (simp add: enquanto.simps [of hc rm mx est p st])
      with "1.IH" [OF lt _ refl Continue] Inr x show ?thesis by simp
    qed
  qed
qed

lemma alcancavel_enquanto:
  "alcancavel hc rm mx est p s0 r0 st
   \<Longrightarrow> enquanto hc rm mx est p (estado_inicial hc s0 r0) = enquanto hc rm mx est p st"
proof (induction rule: alcancavel.induct)
  case inicio
  show ?case by simp
next
  case (passo st st')
  then show ?case by (simp add: enquanto.simps [of hc rm mx est p st])
qed

subsection \<open>Fitness and history\<close>

lemma iteracao_corpo_consistente:
  assumes "iteracao_corpo hc rm est p st = Inr (c, st')" "consistente hc st"
  shows "consistente hc st'"
proof -
  from assms(1) obtain vs r1 where
    g: "gerar_vizinhos hc (aleatorio st) (solucao_atual st) = Inr (vs, r1)"
    by (auto simp: iteracao_corpo_def split: sum.splits)
  obtain c2 mv mf r2 where
    a: "avaliar_vizinhos hc rm est p vs (None, fitness_atual st, r1) = (c2, mv, mf, r2)"
    by (metis prod_cases4)
  from avaliar_vizinhos_fitness [OF a]
  have f: "case mv of None \<Rightarrow> mf = fitness_atual st | Some v \<Rightarrow> mf = funcao_fitness hc v"
    by (auto split: option.splits)
  show ?thesis
  proof (cases mv)
    case None
    with assms g a show ?thesis by (auto simp: iteracao_corpo_def consistente_def)
  next
    case (Some v)
    with assms g a f show ?thesis by (auto simp: iteracao_corpo_def consistente_def)
  qed
qed

lemma alcancavel_consistente:
  "alcancavel hc rm mx est p s0 r0 st \<Longrightarrow> consistente hc st"
proof (induction rule: alcancavel.induct)
  case inicio
  show ?case by (simp add: consistente_def estado_inicial_def)
next
  case (passo st st')
  then show ?case using iteracao_corpo_consistente by blast
qed

lemma enquanto_consistente:
  "enquanto hc rm mx est p st = Inr st' \<Longrightarrow> consistente hc st \<Longrightarrow> consistente hc st'"
  by (erule enquanto_invariante) (auto intro: iteracao_corpo_consistente)

text \<open>
  Claim C3. In both modes and both directions: in every state at the head of the loop
  (after initialisation and after each accepted move with its append to the history) the
  history is non-empty, \<open>fitness_atual\<close> is its last entry and is the fitness of
  \<open>solucao_atual\<close>; the same holds of the solution, fitness and history that \<open>executar\<close>
  returns.
\<close>

theorem executar_fitness_is_last_of_history:
  "(alcancavel hc rm max_iteracoes estocastico probabilidade_pior solucao_inicial r st
      \<longrightarrow> historico st \<noteq> [] \<and> fitness_atual st = last (historico st)
          \<and> funcao_fitness hc (solucao_atual st) = fitness_atual st)
   \<and> (executar hc rm r solucao_inicial max_iteracoes estocastico probabilidade_pior
         = Inr ((s, f, h), r')
      \<longrightarrow> h \<noteq> [] \<and> f = last h \<and> funcao_fitness hc s = f)"
proof (rule conjI; rule impI)
  assume "alcancavel hc rm max_iteracoes estocastico probabilidade_pior solucao_inicial r st"
  from alcancavel_consistente [OF this]
  show "historico st \<noteq> [] \<and> fitness_atual st = last (historico st)
          \<and> funcao_fitness hc (solucao_atual st) = fitness_atual st"
    by (auto simp: consistente_def)
next
  assume e: "executar hc rm r solucao_inicial max_iteracoes estocastico probabilidade_pior
         = Inr ((s, f, h), r')"
  then obtain st' where w: "enquanto hc rm max_iteracoes estocastico probabilidade_pior
             (estado_inicial hc solucao_inicial r) = Inr st'"
    and eq: "s = solucao_atual st'" "f = fitness_atual st'" "h = historico st'"
    by (auto simp: executar_def split: sum.splits)
  have "consistente hc (estado_inicial hc solucao_inicial r)"
    by (simp add: consistente_def estado_inicial_def)
  from enquanto_consistente [OF w this] eq
  show "h \<noteq> [] \<and> f = last h \<and> funcao_fitness hc s = f" by (auto simp: consistente_def)
qed

text \<open>
  A stochastic run of the driver's configuration from \<open>[0, 0, 0]\<close>, three iterations,
  acceptance probability 0.35: the fitness rises to 1 and to 2 and then falls back to 1,
  with a neighbour accepted on its draw. The state is the one after the first iteration.
\<close>

theorem executar_fitness_is_last_of_history_witness:
  "alcancavel soma contador 3 True (35 / 100) [0, 0, 0] 0
     \<lparr>solucao_atual = [0, 1, 0], fitness_atual = 1, historico = [0, 1], iteracao = 1,
      melhorias = 1, aleatorio = 11\<rparr>
   \<and> executar soma contador 0 [0, 0, 0] 3 True (35 / 100)
       = Inr (([1, 0, 0], 1, [0, 1, 2, 1]), 33)
   \<and> [0, 1] \<noteq> ([] :: int list) \<and> (1 :: int) = last [0, 1]
   \<and> funcao_fitness soma [0, 1, 0] = 1
   \<and> [0, 1, 2, 1] \<noteq> ([] :: int list) \<and> (1 :: int) = last [0, 1, 2, 1]
   \<and> funcao_fitness soma [1, 0, 0] = 1"
proof -
  let ?st = "\<lparr>solucao_atual = [0, 1, 0], fitness_atual = 1 :: int, historico = [0, 1],
              iteracao = 1, melhorias = 1, aleatorio = 11 :: nat\<rparr>"
  have s: "iteracao_corpo soma contador True (35 / 100) (estado_inicial soma [0, 0, 0] 0)
             = Inr (Continue, ?st)"
    by code_simp
  have a: "alcancavel soma contador 3 True (35 / 100) [0, 0, 0] 0 ?st"
    by (rule alcancavel.passo [OF alcancavel.inicio _ s]) (simp add: estado_inicial_def)
  have e: "executar soma contador 0 [0, 0, 0] 3 True (35 / 100)
       = Inr (([1, 0, 0], 1, [0, 1, 2, 1]), 33)"
    by code_simp
  from executar_fitness_is_last_of_history
    [of soma contador 3 True "35 / 100" "[0, 0, 0]" 0 ?st "[1, 0, 0]" 1 "[0, 1, 2, 1]" 33] a e
  show ?thesis by simp
qed


subsection \<open>Length of the history\<close>

lemma enquanto_iteracao_le:
  "enquanto hc rm mx est p st = Inr st' \<Longrightarrow> iteracao st \<le> mx \<Longrightarrow> iteracao st' \<le> mx"
  by (erule enquanto_invariante) (auto dest: iteracao_corpo_iteracao)

lemma iteracao_corpo_historico:
  "iteracao_corpo hc rm est p st = Inr (c, st')
   \<Longrightarrow> (c = Continue \<and> length (historico st') = length (historico st) + 1)
       \<or> (c = Break \<and> historico st' = historico st \<and> solucao_atual st' = solucao_atual st
            \<and> fitness_atual st' = fitness_atual st)"
  by (auto simp: iteracao_corpo_def split: sum.splits prod.splits option.splits)

lemma enquanto_historico_le:
  assumes "enquanto hc rm mx est p st = Inr st'" "length (historico st) \<le> iteracao st + 1"
  shows "length (historico st') \<le> iteracao st' + 1"
  using assms
  by (rule enquanto_invariante)
     (use iteracao_corpo_iteracao iteracao_corpo_historico in fastforce)

text \<open>
  Claim C7. \<open>enquanto\<close>, the \<open>while\<close> loop, is a total function: its recursion is
  justified by the measure \<open>max_iteracoes - iteracao\<close>, so every call of \<open>executar\<close> has
  a result. A result that is a return carries a history of at most \<open>max_iteracoes + 1\<close>
  entries; a result that is an exception is one the neighbour generator raised.
\<close>

theorem executar_history_bounded:
  "(executar hc rm r solucao_inicial max_iteracoes estocastico probabilidade_pior
        = Inr ((s, f, h), r')
      \<longrightarrow> length h \<le> max_iteracoes + 1)
   \<and> (executar hc rm r solucao_inicial max_iteracoes estocastico probabilidade_pior = Inl e
      \<longrightarrow> (\<exists>r1 s1. gerar_vizinhos hc r1 s1 = Inl e))"
proof (rule conjI; rule impI)
  assume "executar hc rm r solucao_inicial max_iteracoes estocastico probabilidade_pior
        = Inr ((s, f, h), r')"
  then obtain st' where w: "enquanto hc rm max_iteracoes estocastico probabilidade_pior
             (estado_inicial hc solucao_inicial r) = Inr st'"
    and eq: "h = historico st'"
    by (auto simp: executar_def split: sum.splits)
  have "length (historico st') \<le> iteracao st' + 1"
    by (rule enquanto_historico_le [OF w]) (simp add: estado_inicial_def)
  moreover have "iteracao st' \<le> max_iteracoes"
    by (rule enquanto_iteracao_le [OF w]) (simp add: estado_inicial_def)
  ultimately show "length h \<le> max_iteracoes + 1" using eq by simp
next
  assume "executar hc rm r solucao_inicial max_iteracoes estocastico probabilidade_pior = Inl e"
  then have "enquanto hc rm max_iteracoes estocastico probabilidade_pior
             (estado_inicial hc solucao_inicial r) = Inl e"
    by (auto simp: executar_def split: sum.splits)
  then show "\<exists>r1 s1. gerar_vizinhos hc r1 s1 = Inl e" by (rule enquanto_raises)
qed

text \<open>
  The driver's configuration with a cap of five iterations: from \<open>[0, 0, 0]\<close> the run
  converges with four history entries; from the empty solution the generator raises in
  the first iteration.
\<close>

theorem executar_history_bounded_witness:
  "executar soma contador 0 [0, 0, 0] 5 False 0 = Inr (([1, 1, 1], 3, [0, 1, 2, 3]), 40)
   \<and> length [0, 1, 2, 3 :: int] \<le> 5 + 1
   \<and> executar soma contador 0 [] 5 False 0 = Inl ValueError
   \<and> (\<exists>r1 s1. gerar_vizinhos soma r1 s1 = Inl ValueError)"
proof -
  have a: "executar soma contador 0 [0, 0, 0] 5 False 0 = Inr (([1, 1, 1], 3, [0, 1, 2, 3]), 40)"
    by code_simp
  have b: "executar soma contador 0 [] 5 False 0 = Inl ValueError"
    by code_simp
  from executar_history_bounded
    [of soma contador 0 "[0, 0, 0]" 5 False 0 "[1, 1, 1]" 3 "[0, 1, 2, 3]" 40 ValueError]
    executar_history_bounded
    [of soma contador 0 "[]" 5 False 0 "[]" 0 "[]" 0 ValueError] a b
  show ?thesis by blast
qed

subsection \<open>An empty neighbourhood\<close>

text \<open>
  Claim C9. When, in a state at the head of the loop with iterations left, the generator
  returns the empty list, that iteration takes the convergence branch, in either mode and
  for any acceptance probability, and \<open>executar\<close> returns the current solution, its
  fitness and the history of that state unchanged.
\<close>

theorem executar_empty_neighbourhood_converges:
  assumes "alcancavel hc rm max_iteracoes estocastico probabilidade_pior solucao_inicial r st"
    and "iteracao st < max_iteracoes"
    and "gerar_vizinhos hc (aleatorio st) (solucao_atual st) = Inr ([], r1)"
  shows "iteracao_corpo hc rm estocastico probabilidade_pior st
           = Inr (Break, st\<lparr>iteracao := iteracao st + 1, aleatorio := r1\<rparr>)
         \<and> executar hc rm r solucao_inicial max_iteracoes estocastico probabilidade_pior
           = Inr ((solucao_atual st, fitness_atual st, historico st), r1)"
proof -
  from assms(3) have b: "iteracao_corpo hc rm estocastico probabilidade_pior st
           = Inr (Break, st\<lparr>iteracao := iteracao st + 1, aleatorio := r1\<rparr>)"
    by (simp add: iteracao_corpo_def)
  with assms(2) have "enquanto hc rm max_iteracoes estocastico probabilidade_pior st
      = Inr (st\<lparr>iteracao := iteracao st + 1, aleatorio := r1\<rparr>)"
    by (simp add: enquanto.simps [of hc rm max_iteracoes estocastico probabilidade_pior st])
  with alcancavel_enquanto [OF assms(1)] b show ?thesis by (simp add: executar_def)
qed

text \<open>
  Stochastic mode, probability 1/2, from \<open>[0, 1]\<close> with the generator that flips zero
  bits: the first iteration moves to \<open>[1, 1]\<close>, the second finds no neighbour.
\<close>

theorem executar_empty_neighbourhood_converges_witness:
  "alcancavel so_zeros contador 5 True (1 / 2) [0, 1] 0
     \<lparr>solucao_atual = [1, 1], fitness_atual = 2, historico = [1, 2], iteracao = 1,
      melhorias = 1, aleatorio = 0\<rparr>
   \<and> (1 :: nat) < 5
   \<and> gerar_vizinhos so_zeros 0 [1, 1] = Inr ([], 0)
   \<and> executar so_zeros contador 0 [0, 1] 5 True (1 / 2) = Inr (([1, 1], 2, [1, 2]), 0)"
proof -
  let ?st = "\<lparr>solucao_atual = [1, 1], fitness_atual = 2 :: int, historico = [1, 2],
              iteracao = 1, melhorias = 1, aleatorio = 0 :: nat\<rparr>"
  have s: "iteracao_corpo so_zeros contador True (1 / 2) (estado_inicial so_zeros [0, 1] 0)
             = Inr (Continue, ?st)"
    by (simp add: iteracao_corpo_def estado_inicial_def so_zeros_def eh_melhor_def)
  have a: "alcancavel so_zeros contador 5 True (1 / 2) [0, 1] 0 ?st"
    by (rule alcancavel.passo [OF alcancavel.inicio _ s]) (simp add: estado_inicial_def)
  have g: "gerar_vizinhos so_zeros (aleatorio ?st) (solucao_atual ?st) = Inr ([], 0)"
    by (simp add: so_zeros_def)
  have l: "iteracao ?st < 5" by simp
  from executar_empty_neighbourhood_converges [OF a l g] a g
  show ?thesis by simp
qed

subsection \<open>Standard mode\<close>

lemma avaliar_vizinhos_padrao:
  "avaliar_vizinhos hc rm False p vs (mv0, mf0, r0) = (c, mv, mf, r')
   \<Longrightarrow> c = Continue \<and> r' = r0 \<and> (if maximizar hc then mf0 \<le> mf else mf \<le> mf0)"
proof (induction vs arbitrary: mv0 mf0)
  case Nil
  then show ?case by simp
next
  case (Cons v vs)
  show ?case
  proof (cases "eh_melhor (maximizar hc) (funcao_fitness hc v) mf0")
    case True
    with Cons.prems have
      "avaliar_vizinhos hc rm False p vs (Some v, funcao_fitness hc v, r0) = (c, mv, mf, r')"
      by simp
    from Cons.IH [OF this] True show ?thesis
      by (auto simp: eh_melhor_def split: if_splits)
  next
    case False
    with Cons.prems have "avaliar_vizinhos hc rm False p vs (mv0, mf0, r0) = (c, mv, mf, r')"
      by simp
    from Cons.IH [OF this] show ?thesis .
  qed
qed

lemma iteracao_corpo_monotono:
  assumes "iteracao_corpo hc rm False p st = Inr (c, st')" "monotono hc st"
  shows "monotono hc st'"
proof -
  from assms(1) obtain vs r1 where
    g: "gerar_vizinhos hc (aleatorio st) (solucao_atual st) = Inr (vs, r1)"
    by (auto simp: iteracao_corpo_def split: sum.splits)
  obtain c2 mv mf r2 where
    a: "avaliar_vizinhos hc rm False p vs (None, fitness_atual st, r1) = (c2, mv, mf, r2)"
    by (metis prod_cases4)
  from avaliar_vizinhos_padrao [OF a]
  have le: "if maximizar hc then fitness_atual st \<le> mf else mf \<le> fitness_atual st" by simp
  show ?thesis
  proof (cases mv)
    case None
    with assms g a show ?thesis by (auto simp: iteracao_corpo_def monotono_def)
  next
    case (Some v)
    with assms(1) g a have
      st': "historico st' = historico st @ [mf]" "fitness_atual st' = mf"
      by (auto simp: iteracao_corpo_def)
    show ?thesis
    proof (cases "maximizar hc")
      case True
      with assms(2) le have "sorted_wrt (\<lambda>a b. a \<le> b) (historico st)"
        "\<forall>x\<in>set (historico st). x \<le> mf"
        by (auto simp: monotono_def)
      with True st' show ?thesis by (simp add: monotono_def sorted_wrt_append)
    next
      case False
      with assms(2) le have "sorted_wrt (\<lambda>a b. b \<le> a) (historico st)"
        "\<forall>x\<in>set (historico st). mf \<le> x"
        by (auto simp: monotono_def)
      with False st' show ?thesis by (simp add: monotono_def sorted_wrt_append)
    qed
  qed
qed

text \<open>
  Claim C4. With \<open>estocastico = False\<close> the returned history is non-decreasing when
  \<open>maximizar\<close> is true and non-increasing when it is false.
\<close>

theorem executar_standard_history_monotone:
  assumes "executar hc rm r solucao_inicial max_iteracoes False probabilidade_pior
             = Inr ((s, f, h), r')"
  shows "if maximizar hc then sorted_wrt (\<lambda>a b. a \<le> b) h else sorted_wrt (\<lambda>a b. b \<le> a) h"
proof -
  from assms obtain st' where
    w: "enquanto hc rm max_iteracoes False probabilidade_pior
          (estado_inicial hc solucao_inicial r) = Inr st'"
    and eq: "h = historico st'"
    by (auto simp: executar_def split: sum.splits)
  have "monotono hc (estado_inicial hc solucao_inicial r)"
    by (simp add: monotono_def estado_inicial_def)
  with w have "monotono hc st'"
    by (rule enquanto_invariante) (rule iteracao_corpo_monotono)
  with eq show ?thesis by (simp add: monotono_def split: if_splits)
qed

text \<open>The driver's configuration from \<open>[0, 0, 0]\<close>, and the same with \<open>maximizar = False\<close>
  from \<open>[1, 1, 1]\<close>.\<close>

theorem executar_standard_history_monotone_witness:
  "executar soma contador 0 [0, 0, 0] 5 False 0 = Inr (([1, 1, 1], 3, [0, 1, 2, 3]), 40)
   \<and> maximizar soma \<and> sorted_wrt (\<lambda>a b. a \<le> b) [0, 1, 2, 3 :: int]
   \<and> executar (soma\<lparr>maximizar := False\<rparr>) contador 0 [1, 1, 1] 5 False 0
       = Inr (([0, 0, 0], 0, [3, 2, 1, 0]), 40)
   \<and> \<not> maximizar (soma\<lparr>maximizar := False\<rparr>) \<and> sorted_wrt (\<lambda>a b. b \<le> a) [3, 2, 1, 0 :: int]"
proof -
  have a: "executar soma contador 0 [0, 0, 0] 5 False 0 = Inr (([1, 1, 1], 3, [0, 1, 2, 3]), 40)"
    by code_simp
  have b: "executar (soma\<lparr>maximizar := False\<rparr>) contador 0 [1, 1, 1] 5 False 0
       = Inr (([0, 0, 0], 0, [3, 2, 1, 0]), 40)"
    by code_simp
  have m: "maximizar soma" "\<not> maximizar (soma\<lparr>maximizar := False\<rparr>)"
    by (simp_all add: soma_def)
  from executar_standard_history_monotone [OF a] executar_standard_history_monotone [OF b] a b m
  show ?thesis by simp
qed

subsection \<open>Stochastic acceptance\<close>

text \<open>A scan that has not broken holds a fitness at least as good as the one it started
  with.\<close>

lemma avaliar_vizinhos_continue:
  "avaliar_vizinhos hc rm est p vs (mv0, mf0, r0) = (Continue, mv, mf, r')
   \<Longrightarrow> (if maximizar hc then mf0 \<le> mf else mf \<le> mf0)"
proof (induction vs arbitrary: mv0 mf0 r0)
  case Nil
  then show ?case by simp
next
  case (Cons v vs)
  obtain c s where a: "avaliar_vizinho hc rm est p v (mv0, mf0, r0) = (c, s)"
    by (cases "avaliar_vizinho hc rm est p v (mv0, mf0, r0)")
  obtain mv1 mf1 r1 where s: "s = (mv1, mf1, r1)" by (cases s)
  from a Cons.prems have c: "c = Continue" by (cases c) simp_all
  with a s Cons.prems have "avaliar_vizinhos hc rm est p vs (mv1, mf1, r1) = (Continue, mv, mf, r')"
    by simp
  from Cons.IH [OF this] have i: "if maximizar hc then mf1 \<le> mf else mf \<le> mf1" .
  from a s c have "if maximizar hc then mf0 \<le> mf1 else mf1 \<le> mf0"
    by (auto simp: Let_def eh_melhor_def split: if_splits prod.splits)
  with i show ?case by (auto split: if_splits)
qed

text \<open>
  Claim C2. Stochastic mode, one iteration with neighbour list \<open>pre @ vizinho # post\<close>:
  if the scan of \<open>pre\<close> ends without a break, \<open>vizinho\<close> is not better than the best
  fitness held at that point (as it is when it is not better than the current fitness),
  and the draw made for it is below \<open>probabilidade_pior\<close>, then the scan of the whole list
  breaks with \<open>vizinho\<close> as \<open>melhor_vizinho\<close>, whatever \<open>post\<close> holds: no neighbour of
  \<open>post\<close> is evaluated, no further draw is made, and the iteration moves to \<open>vizinho\<close>.
\<close>

theorem stochastic_accept_aborts_scan:
  assumes "avaliar_vizinhos hc rm True probabilidade_pior pre (None, fitness_atual st, r1)
             = (Continue, melhor_vizinho, melhor_fitness_vizinho, r2)"
    and "\<not> eh_melhor (maximizar hc) (funcao_fitness hc vizinho) melhor_fitness_vizinho
         \<or> \<not> eh_melhor (maximizar hc) (funcao_fitness hc vizinho) (fitness_atual st)"
    and "fst (random_random rm r2) < probabilidade_pior"
  shows "avaliar_vizinhos hc rm True probabilidade_pior (pre @ vizinho # post)
             (None, fitness_atual st, r1)
           = (Break, Some vizinho, funcao_fitness hc vizinho, snd (random_random rm r2))
         \<and> (gerar_vizinhos hc (aleatorio st) (solucao_atual st) = Inr (pre @ vizinho # post, r1)
            \<longrightarrow> iteracao_corpo hc rm True probabilidade_pior st
                = Inr (Continue,
                       st\<lparr>iteracao := iteracao st + 1,
                          solucao_atual := vizinho,
                          fitness_atual := funcao_fitness hc vizinho,
                          melhorias := melhorias st + 1,
                          historico := historico st @ [funcao_fitness hc vizinho],
                          aleatorio := snd (random_random rm r2)\<rparr>))"
proof -
  from avaliar_vizinhos_continue [OF assms(1)] assms(2)
  have n: "\<not> eh_melhor (maximizar hc) (funcao_fitness hc vizinho) melhor_fitness_vizinho"
    by (auto simp: eh_melhor_def split: if_splits)
  from n assms(3) have
    "avaliar_vizinhos hc rm True probabilidade_pior (vizinho # post)
        (melhor_vizinho, melhor_fitness_vizinho, r2)
      = (Break, Some vizinho, funcao_fitness hc vizinho, snd (random_random rm r2))"
    by (simp add: split_beta)
  with avaliar_vizinhos_append [OF assms(1), of "vizinho # post"]
  have "avaliar_vizinhos hc rm True probabilidade_pior (pre @ vizinho # post)
             (None, fitness_atual st, r1)
           = (Break, Some vizinho, funcao_fitness hc vizinho, snd (random_random rm r2))"
    by simp
  then show ?thesis by (simp add: iteracao_corpo_def)
qed

text \<open>
  From \<open>[0, 0]\<close> with neighbours \<open>[1, 0]\<close>, \<open>[0, 0]\<close>, \<open>[1, 1]\<close> and probability 1/2: the
  first neighbour improves, the second does not and its draw is 0, so the run moves to
  \<open>[0, 0]\<close> although \<open>[1, 1]\<close>, the best of the three, comes after it.
\<close>

theorem stochastic_accept_aborts_scan_witness:
  "avaliar_vizinhos tres_vizinhos contador True (1 / 2) [[1, 0]]
      (None, fitness_atual (estado_inicial tres_vizinhos [0, 0] 0), 0)
     = (Continue, Some [1, 0], 1, 0)
   \<and> \<not> eh_melhor (maximizar tres_vizinhos) (funcao_fitness tres_vizinhos [0, 0]) 1
   \<and> fst (random_random contador 0) < 1 / 2
   \<and> gerar_vizinhos tres_vizinhos (aleatorio (estado_inicial tres_vizinhos [0, 0] 0))
        (solucao_atual (estado_inicial tres_vizinhos [0, 0] 0))
      = Inr ([[1, 0]] @ [0, 0] # [[1, 1]], 0)
   \<and> avaliar_vizinhos tres_vizinhos contador True (1 / 2) ([[1, 0]] @ [0, 0] # [[1, 1]])
        (None, fitness_atual (estado_inicial tres_vizinhos [0, 0] 0), 0)
      = (Break, Some [0, 0], 0, 1)
   \<and> iteracao_corpo tres_vizinhos contador True (1 / 2) (estado_inicial tres_vizinhos [0, 0] 0)
      = Inr (Continue,
             \<lparr>solucao_atual = [0, 0], fitness_atual = 0, historico = [0, 0], iteracao = 1,
              melhorias = 1, aleatorio = 1\<rparr>)"
proof -
  let ?st = "estado_inicial tres_vizinhos [0, 0] 0"
  have a: "avaliar_vizinhos tres_vizinhos contador True (1 / 2) [[1, 0]]
      (None, fitness_atual ?st, 0) = (Continue, Some [1, 0], 1, 0)"
    by (simp add: estado_inicial_def tres_vizinhos_def eh_melhor_def)
  have b: "\<not> eh_melhor (maximizar tres_vizinhos) (funcao_fitness tres_vizinhos [0, 0]) 1"
    by (simp add: tres_vizinhos_def eh_melhor_def)
  have c: "fst (random_random contador 0) < 1 / 2"
    by (simp add: contador_def)
  have g: "gerar_vizinhos tres_vizinhos (aleatorio ?st) (solucao_atual ?st)
      = Inr ([[1, 0]] @ [0, 0] # [[1, 1]], 0)"
    by (simp add: estado_inicial_def tres_vizinhos_def)
  from stochastic_accept_aborts_scan [OF a disjI1 [OF b] c, of "[[1, 1]]"] a b c g
  show ?thesis
    by (simp add: estado_inicial_def tres_vizinhos_def contador_def)
qed


subsection \<open>Acceptance probability 1\<close>

text \<open>
  With probability 1 the scan ends at the first neighbour that is not better than the best
  fitness before it, or at the last neighbour when each one is better than the one before.
\<close>

lemma avaliar_vizinhos_p1:
  assumes "random_ok rm" "vs \<noteq> []"
  shows "\<exists>pre t post c r'.
            vs = pre @ t # post
            \<and> avaliar_vizinhos hc rm True 1 vs (mv0, mf0, r0)
                = (c, Some t, funcao_fitness hc t, r')
            \<and> successively (\<lambda>a b. eh_melhor (maximizar hc) b a)
                 (mf0 # map (funcao_fitness hc) pre)
            \<and> (post = [] \<or> \<not> eh_melhor (maximizar hc) (funcao_fitness hc t)
                                   (last (mf0 # map (funcao_fitness hc) pre)))"
  using assms(2)
proof (induction vs arbitrary: mv0 mf0 r0)
  case Nil
  then show ?case by simp
next
  case (Cons v vs)
  show ?case
  proof (cases "eh_melhor (maximizar hc) (funcao_fitness hc v) mf0")
    case False
    from assms(1) have "fst (random_random rm r0) < 1" by (simp add: random_ok_def)
    with False have
      "avaliar_vizinhos hc rm True 1 (v # vs) (mv0, mf0, r0)
         = (Break, Some v, funcao_fitness hc v, snd (random_random rm r0))"
      by (simp add: split_beta)
    with False show ?thesis by (intro exI [of _ "[]"] exI [of _ v] exI [of _ vs]) auto
  next
    case True
    show ?thesis
    proof (cases "vs = []")
      case e: True
      from True e have
        "avaliar_vizinhos hc rm True 1 (v # vs) (mv0, mf0, r0)
           = (Continue, Some v, funcao_fitness hc v, r0)"
        by simp
      with e show ?thesis by (intro exI [of _ "[]"] exI [of _ v] exI [of _ "[]"]) auto
    next
      case False
      from Cons.IH [OF False, of "Some v" "funcao_fitness hc v" r0]
      obtain pre t post c r' where
        i: "vs = pre @ t # post"
           "avaliar_vizinhos hc rm True 1 vs (Some v, funcao_fitness hc v, r0)
              = (c, Some t, funcao_fitness hc t, r')"
           "successively (\<lambda>a b. eh_melhor (maximizar hc) b a)
              (funcao_fitness hc v # map (funcao_fitness hc) pre)"
           "post = [] \<or> \<not> eh_melhor (maximizar hc) (funcao_fitness hc t)
                               (last (funcao_fitness hc v # map (funcao_fitness hc) pre))"
        by blast
      from True i(2) have
        "avaliar_vizinhos hc rm True 1 (v # vs) (mv0, mf0, r0)
           = (c, Some t, funcao_fitness hc t, r')"
        by simp
      with True i(1,3,4) show ?thesis
        by (intro exI [of _ "v # pre"] exI [of _ t] exI [of _ post] exI [of _ c] exI [of _ r'])
           auto
    qed
  qed
qed

lemma iteracao_corpo_p1:
  assumes "random_ok rm"
    and "gerar_vizinhos hc (aleatorio st) (solucao_atual st) = Inr (vs, r1)" and "vs \<noteq> []"
  shows "\<exists>st' pre post. iteracao_corpo hc rm True 1 st = Inr (Continue, st')
           \<and> vs = pre @ solucao_atual st' # post
           \<and> fitness_atual st' = funcao_fitness hc (solucao_atual st')
           \<and> historico st' = historico st @ [fitness_atual st']
           \<and> successively (\<lambda>a b. eh_melhor (maximizar hc) b a)
                (fitness_atual st # map (funcao_fitness hc) pre)
           \<and> (post = [] \<or> \<not> eh_melhor (maximizar hc) (fitness_atual st')
                                  (last (fitness_atual st # map (funcao_fitness hc) pre)))"
proof -
  from avaliar_vizinhos_p1 [OF assms(1,3), of hc None "fitness_atual st" r1]
  obtain pre t post c r' where
    i: "vs = pre @ t # post"
    "avaliar_vizinhos hc rm True 1 vs (None, fitness_atual st, r1)
       = (c, Some t, funcao_fitness hc t, r')"
    "successively (\<lambda>a b. eh_melhor (maximizar hc) b a)
       (fitness_atual st # map (funcao_fitness hc) pre)"
    "post = [] \<or> \<not> eh_melhor (maximizar hc) (funcao_fitness hc t)
                        (last (fitness_atual st # map (funcao_fitness hc) pre))"
    by blast
  let ?st' = "st\<lparr>iteracao := iteracao st + 1, solucao_atual := t,
                  fitness_atual := funcao_fitness hc t, melhorias := melhorias st + 1,
                  historico := historico st @ [funcao_fitness hc t], aleatorio := r'\<rparr>"
  from assms(2) i(2) have "iteracao_corpo hc rm True 1 st = Inr (Continue, ?st')"
    by (simp add: iteracao_corpo_def)
  with i(1,3,4) show ?thesis
    by (intro exI [of _ ?st'] exI [of _ pre] exI [of _ post]) simp
qed

lemma enquanto_p1:
  assumes "random_ok rm"
    and "sempre_vizinhos P hc"
    and "P (solucao_atual st)"
    and "iteracao st \<le> mx" and "length (historico st) = iteracao st + 1"
  shows "\<exists>st'. enquanto hc rm mx True 1 st = Inr st' \<and> iteracao st' = mx
            \<and> length (historico st') = mx + 1"
  using assms
proof (induction hc rm mx "True" "1::real" st rule: enquanto.induct)
  case (1 hc rm mx st)
  show ?case
  proof (cases "iteracao st < mx")
    case False
    with "1.prems" show ?thesis by (simp add: enquanto.simps)
  next
    case True
    from "1.prems"(2,3) obtain vs r1 where
      g: "gerar_vizinhos hc (aleatorio st) (solucao_atual st) = Inr (vs, r1)" "vs \<noteq> []"
      and pv: "\<forall>v\<in>set vs. P v" unfolding sempre_vizinhos_def by blast
    from iteracao_corpo_p1 [OF "1.prems"(1) g] obtain st1 pre post where
      b: "iteracao_corpo hc rm True 1 st = Inr (Continue, st1)"
      and d: "vs = pre @ solucao_atual st1 # post"
      and h: "historico st1 = historico st @ [fitness_atual st1]" by blast
    from d have m: "solucao_atual st1 \<in> set vs" by simp
    from iteracao_corpo_iteracao [OF b] have i: "iteracao st1 = iteracao st + 1" .
    from m pv have p1: "P (solucao_atual st1)" by blast
    from i True h "1.prems"(5) have
      "iteracao st1 \<le> mx" "length (historico st1) = iteracao st1 + 1"
      by simp_all
    from "1.hyps" [OF True b refl refl "1.prems"(1,2) p1 this] True b
    show ?thesis by (simp add: enquanto.simps [of hc rm mx True 1 st])
  qed
qed

text \<open>\<open>gerar_vizinhos_knapsack\<close> yields at least one neighbour when at least one is
  requested: the first draw is never a repeated position.\<close>

lemma gerar_vizinhos_knapsack_nonempty:
  assumes "randbelow_ok rm" "S \<noteq> []"
  shows "\<exists>vs r'. gerar_vizinhos_knapsack rm r S (Suc n) = Inr (vs, r') \<and> vs \<noteq> []
           \<and> (\<forall>v\<in>set vs. length v = length S)"
proof -
  from assms obtain pos r1 where
    ri: "randint rm r 0 (int (length S) - 1) = Inr (pos, r1)" and
    pos: "0 \<le> pos" "pos < int (length S)"
    using randint_in_range [of rm "length S" r] by auto
  let ?v = "S[nat pos := 1 - S ! nat pos]"
  from pos have "flips S [?v] [pos]" by (simp add: flips_def)
  from gerar_laco_flips [OF assms this, of n r1] obtain vs ps r' where
    g: "gerar_laco rm S n ([?v], [pos], r1) = Inr (vs, ps, r')" and f: "flips S vs ps"
    and l: "length [?v] \<le> length vs" by blast
  from ri pos g have "gerar_vizinhos_knapsack rm r S (Suc n) = Inr (vs, r')"
    by (simp add: gerar_vizinhos_knapsack_def flip_bit_in_range)
  moreover from l have "vs \<noteq> []" by auto
  moreover from f have "\<forall>v\<in>set vs. length v = length S" by (auto dest: flips_length)
  ultimately show ?thesis by blast
qed

text \<open>
  Claim C1, as amended. Stochastic mode with acceptance probability 1, a \<open>random()\<close> that
  lies in \<open>[0, 1)\<close>, and a generator that yields at least one neighbour for every solution
  of a set \<open>P\<close> that holds the initial solution and the neighbours of its members
  (\<open>sempre_vizinhos\<close>; with \<open>P\<close> everything, a generator that never returns the empty
  list). Every iteration then accepts one of the generated neighbours: with the list
  split as \<open>pre\<close>, the accepted neighbour, \<open>post\<close>, each neighbour of \<open>pre\<close> is better
  than the one before it (the first one better than the current fitness), and the accepted
  neighbour is either not better than the last of them or the last of the list. In
  particular it is the first neighbour scanned whenever that one is not better than the
  current fitness. \<open>executar\<close> returns with a history of exactly \<open>max_iteracoes + 1\<close>
  entries, so every iteration accepted a move and the loop ended by its iteration cap,
  never by the convergence branch.
\<close>

theorem stochastic_p1_runs_to_cap:
  assumes "random_ok rm"
    and "sempre_vizinhos P hc"
    and "P solucao_inicial" and "P (solucao_atual st)"
  shows "(\<exists>vizinhos r1 st' pre post.
            gerar_vizinhos hc (aleatorio st) (solucao_atual st) = Inr (vizinhos, r1)
            \<and> iteracao_corpo hc rm True 1 st = Inr (Continue, st')
            \<and> vizinhos = pre @ solucao_atual st' # post
            \<and> fitness_atual st' = funcao_fitness hc (solucao_atual st')
            \<and> successively (\<lambda>a b. eh_melhor (maximizar hc) b a)
                 (fitness_atual st # map (funcao_fitness hc) pre)
            \<and> (post = [] \<or> \<not> eh_melhor (maximizar hc) (fitness_atual st')
                                   (last (fitness_atual st # map (funcao_fitness hc) pre)))
            \<and> (\<not> eh_melhor (maximizar hc) (funcao_fitness hc (hd vizinhos)) (fitness_atual st)
                 \<longrightarrow> solucao_atual st' = hd vizinhos))
         \<and> (\<exists>s f h r'. executar hc rm r solucao_inicial max_iteracoes True 1 = Inr ((s, f, h), r')
               \<and> length h = max_iteracoes + 1)"
proof
  from assms(2,4) obtain vs r1 where
    g: "gerar_vizinhos hc (aleatorio st) (solucao_atual st) = Inr (vs, r1)" "vs \<noteq> []"
    unfolding sempre_vizinhos_def by blast
  from iteracao_corpo_p1 [OF assms(1) g] obtain st' pre post where
    i: "iteracao_corpo hc rm True 1 st = Inr (Continue, st')"
       "vs = pre @ solucao_atual st' # post"
       "fitness_atual st' = funcao_fitness hc (solucao_atual st')"
       "successively (\<lambda>a b. eh_melhor (maximizar hc) b a)
          (fitness_atual st # map (funcao_fitness hc) pre)"
       "post = [] \<or> \<not> eh_melhor (maximizar hc) (fitness_atual st')
                           (last (fitness_atual st # map (funcao_fitness hc) pre))"
    by blast
  have "\<not> eh_melhor (maximizar hc) (funcao_fitness hc (hd vs)) (fitness_atual st)
          \<longrightarrow> solucao_atual st' = hd vs"
  proof (cases pre)
    case Nil
    with i(2) show ?thesis by simp
  next
    case (Cons x xs)
    with i(2,4) show ?thesis by simp
  qed
  with g(1) i
  show "\<exists>vizinhos r1 st' pre post.
            gerar_vizinhos hc (aleatorio st) (solucao_atual st) = Inr (vizinhos, r1)
            \<and> iteracao_corpo hc rm True 1 st = Inr (Continue, st')
            \<and> vizinhos = pre @ solucao_atual st' # post
            \<and> fitness_atual st' = funcao_fitness hc (solucao_atual st')
            \<and> successively (\<lambda>a b. eh_melhor (maximizar hc) b a)
                 (fitness_atual st # map (funcao_fitness hc) pre)
            \<and> (post = [] \<or> \<not> eh_melhor (maximizar hc) (fitness_atual st')
                                   (last (fitness_atual st # map (funcao_fitness hc) pre)))
            \<and> (\<not> eh_melhor (maximizar hc) (funcao_fitness hc (hd vizinhos)) (fitness_atual st)
                 \<longrightarrow> solucao_atual st' = hd vizinhos)"
    by blast
next
  have "P (solucao_atual (estado_inicial hc solucao_inicial r))"
    "iteracao (estado_inicial hc solucao_inicial r) \<le> max_iteracoes"
    "length (historico (estado_inicial hc solucao_inicial r))
       = iteracao (estado_inicial hc solucao_inicial r) + 1"
    using assms(3) by (simp_all add: estado_inicial_def)
  from enquanto_p1 [OF assms(1,2) this]
  show "\<exists>s f h r'. executar hc rm r solucao_inicial max_iteracoes True 1 = Inr ((s, f, h), r')
               \<and> length h = max_iteracoes + 1"
    by (auto simp: executar_def)
qed

text \<open>
  The driver's configuration on solutions of length 2, four iterations from \<open>[0, 0]\<close>:
  every iteration accepts a move, improving or not.
\<close>

theorem stochastic_p1_runs_to_cap_witness:
  "random_ok contador
   \<and> sempre_vizinhos (\<lambda>s. length s = 2) soma
   \<and> length [0, 0 :: int] = 2
   \<and> iteracao_corpo soma contador True 1 (estado_inicial soma [0, 0] 0)
       = Inr (Continue,
              \<lparr>solucao_atual = [0, 1], fitness_atual = 1, historico = [0, 1], iteracao = 1,
               melhorias = 1, aleatorio = 11\<rparr>)
   \<and> executar soma contador 0 [0, 0] 4 True 1 = Inr (([0, 0], 0, [0, 1, 0, 1, 0]), 44)
   \<and> (\<exists>s f h r'. executar soma contador 0 [0, 0] 4 True 1 = Inr ((s, f, h), r')
         \<and> length h = 4 + 1)"
proof -
  have g: "sempre_vizinhos (\<lambda>s. length s = 2) soma"
    unfolding sempre_vizinhos_def
  proof (intro allI impI)
    fix r :: nat and s :: solucao
    assume l: "length s = 2"
    then have "s \<noteq> []" by auto
    from gerar_vizinhos_knapsack_nonempty [OF randbelow_ok_contador this, of r 9] l
    show "\<exists>vs r'. gerar_vizinhos soma r s = Inr (vs, r') \<and> vs \<noteq> [] \<and> (\<forall>v\<in>set vs. length v = 2)"
      by (simp add: soma_def)
  qed
  have l: "length [0, 0 :: int] = 2" by simp
  have l': "length (solucao_atual (estado_inicial soma [0, 0] 0)) = 2"
    by (simp add: estado_inicial_def)
  have i: "iteracao_corpo soma contador True 1 (estado_inicial soma [0, 0] 0)
       = Inr (Continue,
              \<lparr>solucao_atual = [0, 1], fitness_atual = 1, historico = [0, 1], iteracao = 1,
               melhorias = 1, aleatorio = 11\<rparr>)"
    by code_simp
  have e: "executar soma contador 0 [0, 0] 4 True 1 = Inr (([0, 0], 0, [0, 1, 0, 1, 0]), 44)"
    by code_simp
  from stochastic_p1_runs_to_cap
    [of contador "\<lambda>s. length s = 2" soma "[0, 0]" "estado_inicial soma [0, 0] 0" 0 4,
     OF random_ok_contador g l l']
  have "\<exists>s f h r'. executar soma contador 0 [0, 0] 4 True 1 = Inr ((s, f, h), r')
         \<and> length h = 4 + 1"
    by (rule conjunct2)
  with random_ok_contador g l i e show ?thesis by blast
qed

text \<open>
  Claim C1 as stated, that the first neighbour scanned is accepted in every iteration,
  fails: from \<open>[0, 0]\<close> the driver's generator returns \<open>[1, 0]\<close> then \<open>[0, 1]\<close>; the
  first improves and is kept as the best so far without ending the scan, the second does
  not improve on it, passes the draw, and is the one the run moves to.
\<close>

theorem stochastic_p1_second_neighbour_accepted:
  "gerar_vizinhos soma 0 [0, 0] = Inr ([[1, 0], [0, 1]], 10)
   \<and> executar soma contador 0 [0, 0] 1 True 1 = Inr (([0, 1], 1, [0, 1]), 11)"
  by code_simp

subsection \<open>Acceptance probability 0\<close>

lemma avaliar_vizinhos_p0:
  assumes "random_ok rm"
  shows "avaliar_vizinhos hc rm False p vs (mv0, mf0, r0) = (c, mv, mf, r')
         \<Longrightarrow> \<exists>r2. avaliar_vizinhos hc rm True 0 vs (mv0, mf0, r3) = (c, mv, mf, r2)"
proof (induction vs arbitrary: mv0 mf0 r3)
  case Nil
  then show ?case by auto
next
  case (Cons v vs)
  show ?case
  proof (cases "eh_melhor (maximizar hc) (funcao_fitness hc v) mf0")
    case True
    with Cons.prems have
      "avaliar_vizinhos hc rm False p vs (Some v, funcao_fitness hc v, r0) = (c, mv, mf, r')"
      by simp
    from Cons.IH [OF this, of r3] True show ?thesis by simp
  next
    case False
    from assms have n: "\<not> fst (random_random rm r3) < 0" by (simp add: random_ok_def not_less)
    from False Cons.prems have "avaliar_vizinhos hc rm False p vs (mv0, mf0, r0) = (c, mv, mf, r')"
      by simp
    from Cons.IH [OF this, of "snd (random_random rm r3)"] False n
    show ?thesis by (simp add: split_beta)
  qed
qed

lemma iteracao_corpo_p0:
  assumes "random_ok rm"
    and "\<forall>r r' s. map_sum id fst (gerar_vizinhos hc r s) = map_sum id fst (gerar_vizinhos hc r' s)"
    and "mesmo a b"
  shows "rel_sum (=) (rel_prod (=) mesmo)
           (iteracao_corpo hc rm False p a) (iteracao_corpo hc rm True 0 b)"
proof -
  from assms(3) have ab: "solucao_atual b = solucao_atual a" "fitness_atual b = fitness_atual a"
    by (simp_all add: mesmo_def)
  from assms(2) have m: "map_sum id fst (gerar_vizinhos hc (aleatorio a) (solucao_atual a))
      = map_sum id fst (gerar_vizinhos hc (aleatorio b) (solucao_atual a))" by blast
  show ?thesis
  proof (cases "gerar_vizinhos hc (aleatorio a) (solucao_atual a)")
    case (Inl e)
    with m have "gerar_vizinhos hc (aleatorio b) (solucao_atual a) = Inl e"
      by (cases "gerar_vizinhos hc (aleatorio b) (solucao_atual a)") simp_all
    with Inl ab show ?thesis by (simp add: iteracao_corpo_def)
  next
    case (Inr x)
    obtain vs ra where x: "x = (vs, ra)" by (cases x)
    from m Inr x obtain rb where
      gb: "gerar_vizinhos hc (aleatorio b) (solucao_atual a) = Inr (vs, rb)"
      by (cases "gerar_vizinhos hc (aleatorio b) (solucao_atual a)") auto
    obtain c mv mf r' where
      sa: "avaliar_vizinhos hc rm False p vs (None, fitness_atual a, ra) = (c, mv, mf, r')"
      by (metis prod_cases4)
    from avaliar_vizinhos_p0 [OF assms(1) sa, of rb] obtain r2 where
      sb: "avaliar_vizinhos hc rm True 0 vs (None, fitness_atual a, rb) = (c, mv, mf, r2)"
      by blast
    from Inr x gb sa sb ab assms(3) show ?thesis
      by (cases mv) (simp_all add: iteracao_corpo_def mesmo_def)
  qed
qed

lemma enquanto_p0:
  assumes "random_ok rm"
    and "\<forall>r r' s. map_sum id fst (gerar_vizinhos hc r s) = map_sum id fst (gerar_vizinhos hc r' s)"
    and "mesmo a b"
  shows "rel_sum (=) mesmo (enquanto hc rm mx False p a) (enquanto hc rm mx True 0 b)"
  using assms
proof (induction hc rm mx "False" p a arbitrary: b rule: enquanto.induct)
  case (1 hc rm mx p a)
  from "1.prems"(3) have it: "iteracao b = iteracao a" by (simp add: mesmo_def)
  show ?case
  proof (cases "iteracao a < mx")
    case False
    with it "1.prems"(3) show ?thesis
      by (simp add: enquanto.simps [of hc rm mx _ _ a] enquanto.simps [of hc rm mx _ _ b])
  next
    case True
    note step = iteracao_corpo_p0 [OF "1.prems", of p]
    show ?thesis
    proof (cases "iteracao_corpo hc rm False p a")
      case (Inl e)
      with step have "iteracao_corpo hc rm True 0 b = Inl e"
        by (cases "iteracao_corpo hc rm True 0 b") simp_all
      with Inl True it show ?thesis
        by (simp add: enquanto.simps [of hc rm mx _ _ a] enquanto.simps [of hc rm mx _ _ b])
    next
      case (Inr x)
      obtain c a' where x: "x = (c, a')" by (cases x)
      from step Inr x obtain b' where
        sb: "iteracao_corpo hc rm True 0 b = Inr (c, b')" and m: "mesmo a' b'"
        by (cases "iteracao_corpo hc rm True 0 b") auto
      show ?thesis
      proof (cases c)
        case Break
        with Inr x sb m True it show ?thesis
          by (simp add: enquanto.simps [of hc rm mx _ _ a] enquanto.simps [of hc rm mx _ _ b])
      next
        case Continue
        from Inr x have "iteracao_corpo hc rm False p a = Inr (c, a')" by simp
        from "1.hyps" [OF True this refl Continue "1.prems"(1,2) m]
        show ?thesis using Inr x sb True it Continue
          by (simp add: enquanto.simps [of hc rm mx _ _ a] enquanto.simps [of hc rm mx _ _ b])
      qed
    qed
  qed
qed

text \<open>
  Claim C5, as amended. With a \<open>random()\<close> that lies in \<open>[0, 1)\<close> and a neighbour
  generator whose outcome (the neighbours, or the exception) does not depend on the state
  of the random source, a stochastic run with acceptance probability 0 gives the same
  final solution, final fitness and history (or the same exception) as a standard run from
  the same inputs and the same initial random state. The random state the two runs leave
  behind is not claimed equal: stochastic mode draws once for every neighbour that is not
  better.
\<close>

theorem stochastic_p0_equals_standard:
  assumes "random_ok rm"
    and "\<forall>r r' s. map_sum id fst (gerar_vizinhos hc r s) = map_sum id fst (gerar_vizinhos hc r' s)"
  shows "map_sum id fst (executar hc rm r solucao_inicial max_iteracoes True 0)
         = map_sum id fst (executar hc rm r solucao_inicial max_iteracoes False probabilidade_pior)"
proof -
  have "mesmo (estado_inicial hc solucao_inicial r) (estado_inicial hc solucao_inicial r)"
    by (simp add: mesmo_def)
  from enquanto_p0 [OF assms this, of max_iteracoes probabilidade_pior]
  show ?thesis
    by (cases "enquanto hc rm max_iteracoes False probabilidade_pior
                 (estado_inicial hc solucao_inicial r)";
        cases "enquanto hc rm max_iteracoes True 0 (estado_inicial hc solucao_inicial r)")
       (simp_all add: executar_def mesmo_def)
qed

text \<open>The generator of every single-bit flip, from \<open>[0, 1, 0]\<close>: the two runs return the
  same triple and leave the counter at 7 and at 0.\<close>

theorem stochastic_p0_equals_standard_witness:
  "random_ok contador
   \<and> (\<forall>r r' s. map_sum id fst (gerar_vizinhos vizinhanca_completa r s)
                = map_sum id fst (gerar_vizinhos vizinhanca_completa r' s))
   \<and> executar vizinhanca_completa contador 0 [0, 1, 0] 5 True 0
       = Inr (([1, 1, 1], 3, [1, 2, 3]), 7)
   \<and> executar vizinhanca_completa contador 0 [0, 1, 0] 5 False (1 / 10)
       = Inr (([1, 1, 1], 3, [1, 2, 3]), 0)
   \<and> map_sum id fst (executar vizinhanca_completa contador 0 [0, 1, 0] 5 True 0)
       = map_sum id fst (executar vizinhanca_completa contador 0 [0, 1, 0] 5 False (1 / 10))"
proof -
  have g: "\<forall>r r' s. map_sum id fst (gerar_vizinhos vizinhanca_completa r s)
                = map_sum id fst (gerar_vizinhos vizinhanca_completa r' s)"
    by (simp add: vizinhanca_completa_def)
  have a: "executar vizinhanca_completa contador 0 [0, 1, 0] 5 True 0
       = Inr (([1, 1, 1], 3, [1, 2, 3]), 7)"
    by code_simp
  have b: "executar vizinhanca_completa contador 0 [0, 1, 0] 5 False (1 / 10)
       = Inr (([1, 1, 1], 3, [1, 2, 3]), 0)"
    by code_simp
  from stochastic_p0_equals_standard [OF random_ok_contador g, of 0 "[0, 1, 0]" 5 "1 / 10"]
    random_ok_contador g a b
  show ?thesis by blast
qed

text \<open>
  Claim C5 as stated fails for the driver's own generator, which draws its positions from
  the same random source: in the first iteration the stochastic run draws once for each of
  the three neighbours that do not improve on the first, so the second call of the
  generator starts from another state and returns the neighbours in another order.
\<close>

theorem stochastic_p0_differs_from_standard:
  "executar soma contador 0 [0, 0, 0, 0] 2 True 0 = Inr (([1, 1, 0, 0], 2, [0, 1, 2]), 26)
   \<and> executar soma contador 0 [0, 0, 0, 0] 2 False 0 = Inr (([1, 0, 1, 0], 2, [0, 1, 2]), 20)"
  by code_simp


section \<open>The run over the store\<close>

lemma avaliar_vizinhos_h_target:
  "avaliar_vizinhos_h hh rm est p h vs (mv0, mf0, r0) = (c, Some t, mf, r')
   \<Longrightarrow> t \<in> set vs \<or> mv0 = Some t"
proof (induction vs arbitrary: mv0 mf0 r0)
  case Nil
  then show ?case by simp
next
  case (Cons a vs)
  then show ?case
    by (fastforce simp: Let_def split: if_splits prod.splits ctl.splits)
qed

text \<open>One iteration keeps the caller's objects, allocates the accepted copy after every
  candidate, and hands no candidate over as the current solution.\<close>

lemma iteracao_corpo_h_separado:
  assumes "gerador_ok hh" "separado h0 st"
    and "iteracao_corpo_h hh rm est p st = Inr (c, st')"
  shows "separado h0 st'
         \<and> (c = Continue \<longrightarrow> length (memoria st) \<le> solucao_atual_h st'
               \<and> (\<exists>v\<in>set (candidatos st'). v \<noteq> solucao_atual_h st'
                     \<and> memoria st' ! solucao_atual_h st' = memoria st' ! v))
         \<and> (c = Break \<longrightarrow> solucao_atual_h st' = solucao_atual_h st)"
proof -
  from assms(3) obtain cs r1 h1 where
    g: "gerar_vizinhos_h hh (aleatorio_h st, memoria st) (solucao_atual_h st) = Inr (cs, r1, h1)"
    by (auto simp: iteracao_corpo_h_def split: sum.splits)
  from assms(2) have
    s: "length h0 \<le> solucao_atual_h st" "solucao_atual_h st < length (memoria st)"
       "take (length h0) (memoria st) = h0"
       "\<forall>c\<in>set (candidatos st). c < length (memoria st)"
       "solucao_atual_h st \<notin> set (candidatos st)"
    by (simp_all add: separado_def)
  from assms(1) s(2) g have
    k: "length (memoria st) \<le> length h1" "take (length (memoria st)) h1 = memoria st"
       "\<forall>c\<in>set cs. c < length h1 \<and> c \<noteq> solucao_atual_h st"
    unfolding gerador_ok_def by blast+
  from s(1,2) have "length h0 \<le> length (memoria st)" by simp
  then have "take (length h0) h1 = take (length h0) (take (length (memoria st)) h1)"
    by (simp add: min_def)
  with k(2) s(3) have t: "take (length h0) h1 = h0" by simp
  obtain c2 mv mf r2 where
    a: "avaliar_vizinhos_h hh rm est p h1 cs (None, fitness_atual_h st, r1) = (c2, mv, mf, r2)"
    by (metis prod_cases4)
  show ?thesis
  proof (cases mv)
    case None
    with assms(3) g a have
      st': "c = Break" "solucao_atual_h st' = solucao_atual_h st" "memoria st' = h1"
           "candidatos st' = candidatos st @ cs"
      by (auto simp: iteracao_corpo_h_def)
    from s k t st' show ?thesis by (auto simp: separado_def)
  next
    case (Some v)
    with a avaliar_vizinhos_h_target [of hh rm est p h1 cs None] have v: "v \<in> set cs" by auto
    from Some assms(3) g a have
      st': "c = Continue" "solucao_atual_h st' = length h1" "memoria st' = h1 @ [h1 ! v]"
           "candidatos st' = candidatos st @ cs"
      by (auto simp: iteracao_corpo_h_def deepcopy_def)
    from v k(3) have vl: "v < length h1" by blast
    from s k t st' have "separado h0 st'" by (fastforce simp: separado_def)
    moreover from k(1) st' have "length (memoria st) \<le> solucao_atual_h st'" by simp
    moreover from v vl st' have "\<exists>v\<in>set (candidatos st'). v \<noteq> solucao_atual_h st'
                     \<and> memoria st' ! solucao_atual_h st' = memoria st' ! v"
      by (auto simp: nth_append intro!: bexI [of _ v])
    ultimately show ?thesis using st'(1) by simp
  qed
qed

lemma enquanto_h_invariante:
  assumes "enquanto_h hh rm mx est p st = Inr st'" and "Inv st"
    and step: "\<And>s c s'. Inv s \<Longrightarrow> iteracao_h s < mx
                 \<Longrightarrow> iteracao_corpo_h hh rm est p s = Inr (c, s') \<Longrightarrow> Inv s'"
  shows "Inv st'"
  using assms
proof (induction hh rm mx est p st rule: enquanto_h.induct)
  case (1 hh rm mx est p st)
  show ?case
  proof (cases "iteracao_h st < mx")
    case False
    with "1.prems" show ?thesis by (simp add: enquanto_h.simps)
  next
    case True
    with "1.prems"(1) obtain c st1 where
      b: "iteracao_corpo_h hh rm est p st = Inr (c, st1)"
      by (auto simp: enquanto_h.simps [of hh rm mx est p st] split: sum.splits)
    from "1.prems"(3) [OF "1.prems"(2) True b] have c1: "Inv st1" .
    show ?thesis
    proof (cases c)
      case Break
      with True b "1.prems"(1) c1 show ?thesis
        by (simp add: enquanto_h.simps [of hh rm mx est p st])
    next
      case Continue
      with True b "1.prems"(1) have "enquanto_h hh rm mx est p st1 = Inr st'"
        by (simp add: enquanto_h.simps [of hh rm mx est p st])
      from "1.IH" [OF True b refl Continue this c1 "1.prems"(3)] show ?thesis by simp
    qed
  qed
qed

lemma estado_inicial_h_separado:
  "separado h0 (estado_inicial_h hh solucao_inicial (r, h0))"
  by (simp add: separado_def estado_inicial_h_def deepcopy_def)

text \<open>
  Claim C8. The generator is one that leaves existing objects alone and returns allocated
  references other than the one it was handed; \<open>solucao_inicial\<close> refers to an object of
  the caller's store \<open>h0\<close>. Then (1) an iteration that accepts a move installs as current
  solution an object allocated in that iteration, equal in value to one of the candidates
  and distinct from every candidate generated so far; (2) the reference \<open>executar\<close>
  returns is none of the candidates the generator produced during the run and is not
  \<open>solucao_inicial\<close>; (3) in the final store every object of \<open>h0\<close>, the caller's
  \<open>solucao_inicial\<close> among them, is as it was.
\<close>

theorem executar_h_returns_fresh_copy:
  assumes "gerador_ok hh" and "solucao_inicial < length h0"
  shows "(separado h0 st
            \<and> iteracao_corpo_h hh rm estocastico probabilidade_pior st = Inr (Continue, st')
          \<longrightarrow> length (memoria st) \<le> solucao_atual_h st'
              \<and> solucao_atual_h st' \<notin> set (candidatos st')
              \<and> (\<exists>v\<in>set (candidatos st').
                    memoria st' ! solucao_atual_h st' = memoria st' ! v))
         \<and> (executar_h hh rm (r, h0) solucao_inicial max_iteracoes estocastico
               probabilidade_pior = Inr ((s, f, h), r', h', cands)
          \<longrightarrow> s \<notin> set cands \<and> s \<noteq> solucao_inicial \<and> s < length h'
              \<and> take (length h0) h' = h0 \<and> h' ! solucao_inicial = h0 ! solucao_inicial)"
proof (rule conjI; rule impI)
  assume a: "separado h0 st
            \<and> iteracao_corpo_h hh rm estocastico probabilidade_pior st = Inr (Continue, st')"
  from iteracao_corpo_h_separado [OF assms(1) conjunct1 [OF a] conjunct2 [OF a]]
  show "length (memoria st) \<le> solucao_atual_h st'
              \<and> solucao_atual_h st' \<notin> set (candidatos st')
              \<and> (\<exists>v\<in>set (candidatos st').
                    memoria st' ! solucao_atual_h st' = memoria st' ! v)"
    by (auto simp: separado_def)
next
  assume "executar_h hh rm (r, h0) solucao_inicial max_iteracoes estocastico
               probabilidade_pior = Inr ((s, f, h), r', h', cands)"
  then obtain st1 where
    w: "enquanto_h hh rm max_iteracoes estocastico probabilidade_pior
          (estado_inicial_h hh solucao_inicial (r, h0)) = Inr st1"
    and eq: "s = solucao_atual_h st1" "h' = memoria st1" "cands = candidatos st1"
    by (auto simp: executar_h_def split: sum.splits)
  from w estado_inicial_h_separado have "separado h0 st1"
    by (rule enquanto_h_invariante) (use assms(1) iteracao_corpo_h_separado in blast)
  with eq have
    i: "length h0 \<le> s" "s < length h'" "take (length h0) h' = h0" "s \<notin> set cands"
    by (simp_all add: separado_def)
  from assms(2) have "take (length h0) h' ! solucao_inicial = h' ! solucao_inicial" by simp
  with i assms(2) show "s \<notin> set cands \<and> s \<noteq> solucao_inicial \<and> s < length h'
              \<and> take (length h0) h' = h0 \<and> h' ! solucao_inicial = h0 ! solucao_inicial"
    by auto
qed


text \<open>\<open>gerar_vizinhos_knapsack\<close> over the store is such a generator: it writes only to
  the copies it allocates.\<close>

lemma gerar_laco_h_frame:
  assumes "length hb \<le> length h" "take (length hb) h = hb"
    and "\<forall>c\<in>set vs. length hb \<le> c \<and> c < length h"
    and "gerar_laco_h rm a n k (vs, ps, r, h) = Inr (vs', ps', r', h')"
  shows "length hb \<le> length h' \<and> take (length hb) h' = hb
         \<and> (\<forall>c\<in>set vs'. length hb \<le> c \<and> c < length h')"
  using assms
proof (induction k arbitrary: vs ps r h)
  case 0
  then show ?case by simp
next
  case (Suc k)
  from Suc.prems(4) obtain pos r1 where ri: "randint rm r 0 (int n - 1) = Inr (pos, r1)"
    by (auto split: sum.splits)
  show ?case
  proof (cases "pos \<in> set ps")
    case True
    with ri Suc.prems(4) have "gerar_laco_h rm a n k (vs, ps, r1, h) = Inr (vs', ps', r', h')"
      by simp
    from Suc.IH [OF Suc.prems(1,2,3) this] show ?thesis .
  next
    case False
    with ri Suc.prems(4) obtain h2 where
      f: "flip_bit_h (h @ [h ! a]) (length h) pos = Inr h2" and
      g: "gerar_laco_h rm a n k (vs @ [length h], ps @ [pos], r1, h2) = Inr (vs', ps', r', h')"
      by (auto simp: deepcopy_def split: sum.splits)
    from f obtain j where
      h2: "h2 = (h @ [h ! a])[length h := ((h @ [h ! a]) ! length h)[j := 1 - (h @ [h ! a]) ! length h ! j]]"
      by (auto simp: flip_bit_h_def split: sum.splits)
    then have l2: "length h2 = length h + 1" by simp
    from h2 Suc.prems(1,2) have t2: "take (length hb) h2 = hb" by simp
    from l2 Suc.prems(1) have "length hb \<le> length h2" by simp
    moreover from l2 Suc.prems(1,3) have
      "\<forall>c\<in>set (vs @ [length h]). length hb \<le> c \<and> c < length h2" by auto
    ultimately show ?thesis using Suc.IH [OF _ t2 _ g] by blast
  qed
qed

lemma gerador_ok_soma_h: "gerador_ok soma_h"
  unfolding gerador_ok_def
proof (intro allI impI)
  fix r :: nat and h :: "solucao heap" and a cs r' h'
  assume a: "a < length h" and g: "gerar_vizinhos_h soma_h (r, h) a = Inr (cs, r', h')"
  from g obtain ps where
    "gerar_laco_h contador a (length (h ! a)) 10 ([], [], r, h) = Inr (cs, ps, r', h')"
    by (auto simp: soma_h_def gerar_vizinhos_knapsack_h_def split: sum.splits)
  from gerar_laco_h_frame [OF _ _ _ this, of h] a
  show "length h \<le> length h' \<and> take (length h) h' = h \<and> (\<forall>c\<in>set cs. c < length h' \<and> c \<noteq> a)"
    by auto
qed

text \<open>
  The driver's configuration over a store that holds only the caller's \<open>[0, 0]\<close> at
  reference 0, three stochastic iterations with probability 1/2. The first iteration
  generates the candidates 2 and 3 and installs a copy of candidate 3 at reference 4; the
  run returns reference 10, the candidates were 2, 3, 5, 6, 8 and 9, and reference 0
  still holds \<open>[0, 0]\<close>.
\<close>

theorem executar_h_returns_fresh_copy_witness:
  "gerador_ok soma_h \<and> (0 :: nat) < length [[0, 0 :: int]]
   \<and> separado [[0, 0]] (estado_inicial_h soma_h 0 (0, [[0, 0]]))
   \<and> iteracao_corpo_h soma_h contador True (1 / 2) (estado_inicial_h soma_h 0 (0, [[0, 0]]))
       = Inr (Continue,
              \<lparr>solucao_atual_h = 4, fitness_atual_h = 1, historico_h = [0, 1],
               iteracao_h = 1, melhorias_h = 1, aleatorio_h = 11,
               memoria = [[0, 0], [0, 0], [1, 0], [0, 1], [0, 1]], candidatos = [2, 3]\<rparr>)
   \<and> executar_h soma_h contador (0, [[0, 0]]) 0 3 True (1 / 2)
       = Inr ((10, 1, [0, 1, 0, 1]), 33,
              [[0, 0], [0, 0], [1, 0], [0, 1], [0, 1], [0, 0], [1, 1], [0, 0], [1, 0], [0, 1],
               [0, 1]],
              [2, 3, 5, 6, 8, 9])
   \<and> (10 :: nat) \<notin> set [2, 3, 5, 6, 8, 9] \<and> (10 :: nat) \<noteq> 0
   \<and> [[0, 0], [0, 0], [1, 0], [0, 1], [0, 1], [0, 0], [1, 1], [0, 0], [1, 0], [0, 1],
       [0, 1]] ! 0 = [[0, 0 :: int]] ! 0"
proof -
  let ?st = "estado_inicial_h soma_h 0 (0, [[0, 0]])"
  let ?st' = "\<lparr>solucao_atual_h = 4, fitness_atual_h = 1 :: int, historico_h = [0, 1],
               iteracao_h = 1, melhorias_h = 1, aleatorio_h = 11 :: nat,
               memoria = [[0, 0], [0, 0], [1, 0], [0, 1], [0, 1 :: int]],
               candidatos = [2, 3]\<rparr>"
  have l: "(0 :: nat) < length [[0, 0 :: int]]" by simp
  have s: "separado [[0, 0]] ?st" by (rule estado_inicial_h_separado)
  have i: "iteracao_corpo_h soma_h contador True (1 / 2) ?st = Inr (Continue, ?st')"
    by code_simp
  have e: "executar_h soma_h contador (0, [[0, 0]]) 0 3 True (1 / 2)
       = Inr ((10, 1, [0, 1, 0, 1]), 33,
              [[0, 0], [0, 0], [1, 0], [0, 1], [0, 1], [0, 0], [1, 1], [0, 0], [1, 0], [0, 1],
               [0, 1]],
              [2, 3, 5, 6, 8, 9])"
    by code_simp
  from executar_h_returns_fresh_copy
    [OF gerador_ok_soma_h l, of ?st contador True "1 / 2" ?st' 0 3 10 1 "[0, 1, 0, 1]" 33
      "[[0, 0], [0, 0], [1, 0], [0, 1], [0, 1], [0, 0], [1, 1], [0, 0], [1, 0], [0, 1], [0, 1]]"
      "[2, 3, 5, 6, 8, 9]"]
    gerador_ok_soma_h l s i e
  show ?thesis by simp
qed


subsection \<open>The run over the store computes the run on values\<close>

lemma avaliar_vizinhos_h_valores:
  assumes "funcao_fitness_h hh = funcao_fitness hc" "maximizar_h hh = maximizar hc"
  shows "avaliar_vizinhos hc rm est p (map ((!) h) cs) (map_option ((!) h) mv, mf, r)
         = (case avaliar_vizinhos_h hh rm est p h cs (mv, mf, r) of
              (c, mv', mf', r') \<Rightarrow> (c, map_option ((!) h) mv', mf', r'))"
proof (induction cs arbitrary: mv mf r)
  case Nil
  show ?case by simp
next
  case (Cons a cs)
  show ?case
  proof (cases "eh_melhor (maximizar hc) (funcao_fitness hc (h ! a)) mf")
    case True
    with assms Cons.IH [of "Some a" "funcao_fitness hc (h ! a)" r] show ?thesis by simp
  next
    case False
    show ?thesis
    proof (cases est)
      case e: False
      with False assms Cons.IH [of mv mf r] show ?thesis by simp
    next
      case e: True
      obtain u r1 where d: "random_random rm r = (u, r1)" by (cases "random_random rm r")
      show ?thesis
      proof (cases "u < p")
        case True
        with False e d assms show ?thesis by simp
      next
        case u: False
        with False e d assms Cons.IH [of mv mf r1] show ?thesis by simp
      qed
    qed
  qed
qed

lemma iteracao_corpo_h_valores:
  assumes "gerador_ok hh" "implementa hh hc" "solucao_atual_h st < length (memoria st)"
  shows "map_sum id (map_prod id valores) (iteracao_corpo_h hh rm est p st)
           = iteracao_corpo hc rm est p (valores st)
         \<and> (\<forall>c st'. iteracao_corpo_h hh rm est p st = Inr (c, st')
               \<longrightarrow> solucao_atual_h st' < length (memoria st'))"
proof -
  from assms(2) have
    fm: "funcao_fitness_h hh = funcao_fitness hc" "maximizar_h hh = maximizar hc"
    by (simp_all add: implementa_def)
  let ?a = "solucao_atual_h st"
  from assms(2,3) have
    im: "gerar_vizinhos hc (aleatorio_h st) (memoria st ! ?a)
           = map_sum id (\<lambda>(cs, r', h'). (map ((!) h') cs, r'))
               (gerar_vizinhos_h hh (aleatorio_h st, memoria st) ?a)"
    unfolding implementa_def by blast
  show ?thesis
  proof (cases "gerar_vizinhos_h hh (aleatorio_h st, memoria st) ?a")
    case (Inl e)
    with im show ?thesis by (simp add: iteracao_corpo_h_def iteracao_corpo_def valores_def)
  next
    case (Inr x)
    obtain cs r1 h1 where x: "x = (cs, r1, h1)" by (cases x)
    with Inr im have
      gv: "gerar_vizinhos hc (aleatorio_h st) (memoria st ! ?a) = Inr (map ((!) h1) cs, r1)"
      by simp
    from assms(1,3) Inr x have
      k: "length (memoria st) \<le> length h1" "take (length (memoria st)) h1 = memoria st"
      unfolding gerador_ok_def by blast+
    from k(2) assms(3) have same: "h1 ! ?a = memoria st ! ?a"
      by (metis nth_take)
    obtain c mv mf r2 where
      a: "avaliar_vizinhos_h hh rm est p h1 cs (None, fitness_atual_h st, r1) = (c, mv, mf, r2)"
      by (metis prod_cases4)
    with avaliar_vizinhos_h_valores [OF fm, of rm est p h1 cs None "fitness_atual_h st" r1]
    have av: "avaliar_vizinhos hc rm est p (map ((!) h1) cs) (None, fitness_atual_h st, r1)
                = (c, map_option ((!) h1) mv, mf, r2)"
      by simp
    show ?thesis
    proof (cases mv)
      case None
      with Inr x gv a av same k assms(3) show ?thesis
        by (simp add: iteracao_corpo_h_def iteracao_corpo_def valores_def)
    next
      case (Some v)
      with Inr x gv a av show ?thesis
        by (simp add: iteracao_corpo_h_def iteracao_corpo_def valores_def deepcopy_def)
    qed
  qed
qed

lemma enquanto_h_valores:
  assumes "gerador_ok hh" "implementa hh hc" "solucao_atual_h st < length (memoria st)"
  shows "map_sum id valores (enquanto_h hh rm mx est p st)
           = enquanto hc rm mx est p (valores st)"
  using assms
proof (induction hh rm mx est p st rule: enquanto_h.induct)
  case (1 hh rm mx est p st)
  have it: "iteracao (valores st) = iteracao_h st" by (simp add: valores_def)
  note step = iteracao_corpo_h_valores [OF "1.prems", of rm est p]
  show ?case
  proof (cases "iteracao_h st < mx")
    case False
    with it show ?thesis
      by (simp add: enquanto_h.simps [of hh rm mx est p st]
            enquanto.simps [of hc rm mx est p "valores st"])
  next
    case True
    show ?thesis
    proof (cases "iteracao_corpo_h hh rm est p st")
      case (Inl e)
      with step have "iteracao_corpo hc rm est p (valores st) = Inl e" by simp
      with Inl True it show ?thesis
        by (simp add: enquanto_h.simps [of hh rm mx est p st]
              enquanto.simps [of hc rm mx est p "valores st"])
    next
      case (Inr x)
      obtain c st1 where x: "x = (c, st1)" by (cases x)
      with Inr step have
        v: "iteracao_corpo hc rm est p (valores st) = Inr (c, valores st1)"
        and l: "solucao_atual_h st1 < length (memoria st1)" by auto
      show ?thesis
      proof (cases c)
        case Break
        with Inr x v True it show ?thesis
          by (simp add: enquanto_h.simps [of hh rm mx est p st]
                enquanto.simps [of hc rm mx est p "valores st"])
      next
        case Continue
        from Inr x have b: "iteracao_corpo_h hh rm est p st = Inr (c, st1)" by simp
        from "1.IH" [OF True b refl Continue "1.prems"(1,2) l] Inr x v True it Continue
        show ?thesis
          by (simp add: enquanto_h.simps [of hh rm mx est p st]
                enquanto.simps [of hc rm mx est p "valores st"])
      qed
    qed
  qed
qed

text \<open>
  Read through the final store, what \<open>executar_h\<close> returns is what \<open>executar\<close> returns on
  the value of the initial solution.
\<close>

lemma executar_h_valores:
  assumes "gerador_ok hh" "implementa hh hc" "solucao_inicial < length h0"
  shows "map_sum id (\<lambda>((s, f, h), r', h', cs). ((h' ! s, f, h), r'))
           (executar_h hh rm (r, h0) solucao_inicial max_iteracoes estocastico probabilidade_pior)
         = executar hc rm r (h0 ! solucao_inicial) max_iteracoes estocastico probabilidade_pior"
proof -
  let ?st = "estado_inicial_h hh solucao_inicial (r, h0)"
  from assms(2) have "funcao_fitness_h hh = funcao_fitness hc" by (simp add: implementa_def)
  with assms(3) have v: "valores ?st = estado_inicial hc (h0 ! solucao_inicial) r"
    by (simp add: valores_def estado_inicial_h_def estado_inicial_def deepcopy_def)
  have "solucao_atual_h ?st < length (memoria ?st)"
    by (simp add: estado_inicial_h_def deepcopy_def)
  from enquanto_h_valores [OF assms(1,2) this, of rm max_iteracoes estocastico probabilidade_pior] v
  have e: "enquanto hc rm max_iteracoes estocastico probabilidade_pior
             (estado_inicial hc (h0 ! solucao_inicial) r)
           = map_sum id valores
               (enquanto_h hh rm max_iteracoes estocastico probabilidade_pior ?st)"
    by simp
  show ?thesis
    unfolding executar_h_def executar_def e
    by (cases "enquanto_h hh rm max_iteracoes estocastico probabilidade_pior ?st")
       (simp_all add: valores_def)
qed

text \<open>\<open>gerar_vizinhos_knapsack\<close> over the store implements the one on values.\<close>

lemma gerar_laco_h_valores:
  assumes "a < length h" "\<forall>c\<in>set cs. c < length h"
  shows "gerar_laco rm (h ! a) k (map ((!) h) cs, ps, r)
         = map_sum id (\<lambda>(cs', ps', r', h'). (map ((!) h') cs', ps', r'))
             (gerar_laco_h rm a (length (h ! a)) k (cs, ps, r, h))"
  using assms
proof (induction k arbitrary: cs ps r h)
  case 0
  show ?case by simp
next
  case (Suc k)
  let ?S = "h ! a"
  show ?case
  proof (cases "randint rm r 0 (int (length ?S) - 1)")
    case (Inl e)
    then show ?thesis by simp
  next
    case (Inr x)
    obtain pos r1 where x: "x = (pos, r1)" by (cases x)
    show ?thesis
    proof (cases "pos \<in> set ps")
      case True
      with Inr x Suc.IH [OF Suc.prems, of ps r1] show ?thesis by simp
    next
      case False
      let ?h1 = "h @ [?S]"
      show ?thesis
      proof (cases "py_index (length ?S) pos")
        case (Inl e)
        with Inr x False show ?thesis
          by (simp add: deepcopy_def flip_bit_h_def flip_bit_def)
      next
        case j: (Inr j)
        let ?h2 = "?h1[length h := ?S[j := 1 - ?S ! j]]"
        from Suc.prems have a2: "a < length ?h2" "\<forall>c\<in>set (cs @ [length h]). c < length ?h2"
          by auto
        from Suc.prems(1) have s2: "?h2 ! a = ?S" by (simp add: nth_append)
        from Suc.prems(2) have m2: "map ((!) ?h2) (cs @ [length h])
            = map ((!) h) cs @ [?S[j := 1 - ?S ! j]]"
          by (auto simp: nth_append)
        from Suc.IH [OF a2, of "ps @ [pos]" r1]
        have "gerar_laco rm ?S k (map ((!) h) cs @ [?S[j := 1 - ?S ! j]], ps @ [pos], r1)
              = map_sum id (\<lambda>(cs', ps', r', h'). (map ((!) h') cs', ps', r'))
                  (gerar_laco_h rm a (length ?S) k (cs @ [length h], ps @ [pos], r1, ?h2))"
          unfolding s2 m2 .
        with Inr x False j show ?thesis
          by (simp add: deepcopy_def flip_bit_h_def flip_bit_def id_def)
      qed
    qed
  qed
qed

lemma implementa_soma_h: "implementa soma_h soma"
  unfolding implementa_def
proof (intro conjI allI impI)
  show "funcao_fitness_h soma_h = funcao_fitness soma" by (simp add: soma_h_def soma_def)
  show "maximizar_h soma_h = maximizar soma" by (simp add: soma_h_def soma_def)
  fix r :: nat and h :: "solucao heap" and a
  assume "a < length h"
  from gerar_laco_h_valores [OF this, of "[]" contador 10 "[]" r]
  show "gerar_vizinhos soma r (h ! a)
          = map_sum id (\<lambda>(cs, r', h'). (map ((!) h') cs, r')) (gerar_vizinhos_h soma_h (r, h) a)"
    by (cases "gerar_laco_h contador a (length (h ! a)) 10 ([], [], r, h)")
       (auto simp: soma_h_def soma_def gerar_vizinhos_knapsack_h_def gerar_vizinhos_knapsack_def)
qed

text \<open>So the driver's configuration over the store returns, read through the final store,
  what the driver's configuration on values returns.\<close>

lemma executar_h_soma_h:
  "solucao_inicial < length h0
   \<Longrightarrow> map_sum id (\<lambda>((s, f, h), r', h', cs). ((h' ! s, f, h), r'))
         (executar_h soma_h contador (r, h0) solucao_inicial max_iteracoes estocastico
            probabilidade_pior)
       = executar soma contador r (h0 ! solucao_inicial) max_iteracoes estocastico
           probabilidade_pior"
  by (rule executar_h_valores [OF gerador_ok_soma_h implementa_soma_h])

end
